theory Spec2Isabelle
  imports Main
begin

section \<open>The users table of the userservice (db.py)\<close>

text \<open>
  \<^verbatim>\<open>db.py\<close> is a data-access layer over SQLAlchemy: class \<^verbatim>\<open>UserDb\<close> declares the
  \<^verbatim>\<open>users\<close> table and offers \<^verbatim>\<open>add_user\<close>, \<^verbatim>\<open>generate_accountid\<close> and \<^verbatim>\<open>get_user\<close>.
  The three methods are embedded below as state-passing functions. What they call but do
  not define (the SQLAlchemy engine, \<^verbatim>\<open>random.randint\<close>, the tracing span) is the
  environment: the table is a list of rows governed by the constraints that \<^verbatim>\<open>__init__\<close>
  declares, the random source is a stream of draws, and infrastructure failures come from a
  fault schedule.
\<close>

subsection \<open>Python values and exceptions\<close>

text \<open>The values a field of a user mapping holds: \<^verbatim>\<open>None\<close>, \<^verbatim>\<open>str\<close>, \<^verbatim>\<open>bytes\<close>,
  \<^verbatim>\<open>datetime.date\<close> (year, month, day).\<close>

datatype pyval = PyNone | PyStr string | PyBytes "nat list" | PyDate int nat nat

text \<open>A Python \<^verbatim>\<open>dict\<close> with string keys.\<close>

type_synonym pydict = "string \<rightharpoonup> pyval"

text \<open>The exceptions of \<^verbatim>\<open>sqlalchemy.exc\<close> that the model raises itself, one more
  database-level error for injected failures, and any exception that is not a
  \<^verbatim>\<open>SQLAlchemyError\<close>.\<close>

datatype exn =
    CompileError
  | IntegrityError
  | OperationalError
  | PyException string

fun is_SQLAlchemyError :: "exn \<Rightarrow> bool" where
  "is_SQLAlchemyError (PyException _) = False"
| "is_SQLAlchemyError _ = True"

subsection \<open>Python's \<^verbatim>\<open>str\<close> on integers\<close>

definition digit_char :: "nat \<Rightarrow> char" where
  "digit_char d = ''0123456789'' ! d"

fun str_nat :: "nat \<Rightarrow> string" where
  "str_nat n = (if n < 10 then [digit_char n] else str_nat (n div 10) @ [digit_char (n mod 10)])"

declare str_nat.simps [simp del]

definition str_int :: "int \<Rightarrow> string" where
  "str_int i = (if i < 0 then CHR ''-'' # str_nat (nat (- i)) else str_nat (nat i))"

text \<open>Reading a decimal string back as a number, and the test for an ASCII digit.\<close>

definition is_ascii_digit :: "char \<Rightarrow> bool" where
  "is_ascii_digit c = (48 \<le> (of_char c :: nat) \<and> (of_char c :: nat) \<le> 57)"

definition decimal_value :: "string \<Rightarrow> nat" where
  "decimal_value s = foldl (\<lambda>acc c. 10 * acc + (of_char c - 48)) 0 s"

subsection \<open>The table declared in \<^verbatim>\<open>__init__\<close>\<close>

datatype coltype = String | LargeBinary | Date

record column =
  col_name :: string
  col_type :: coltype
  primary_key :: bool
  unique :: bool
  nullable :: bool

text \<open>\<^verbatim>\<open>Column(name, type, primary_key=.., unique=.., nullable=..)\<close>. SQLAlchemy's default
  for \<^verbatim>\<open>nullable\<close> is \<^verbatim>\<open>not primary_key\<close>, so the primary key is not nullable either.\<close>

definition Column :: "string \<Rightarrow> coltype \<Rightarrow> bool \<Rightarrow> bool \<Rightarrow> bool \<Rightarrow> column" where
  "Column n t pk u nl =
     \<lparr>col_name = n, col_type = t, primary_key = pk, unique = u, nullable = nl\<rparr>"

definition users_table :: "column list" where
  "users_table =
     [Column ''accountid'' String True False False,
      Column ''username'' String False True False,
      Column ''passhash'' LargeBinary False False False,
      Column ''firstname'' String False False False,
      Column ''lastname'' String False False False,
      Column ''birthday'' Date False False False,
      Column ''timezone'' String False False False,
      Column ''address'' String False False False,
      Column ''state'' String False False False,
      Column ''zip'' String False False False,
      Column ''ssn'' String False False False]"

definition column_names :: "string list" where
  "column_names = map col_name users_table"

text \<open>A stored row holds one value per column, in the order of the columns;
  \<^verbatim>\<open>dict(row)\<close> maps the column names to them.\<close>

type_synonym row = "pyval list"

definition dict :: "row \<Rightarrow> pydict" where
  "dict r = map_of (zip column_names r)"

subsection \<open>The engine: statements, constraints, connections\<close>

text \<open>
  The two statements the module builds: \<^verbatim>\<open>users_table.insert().values(user)\<close> and
  \<^verbatim>\<open>users_table.select().where(users_table.c.<column> == value)\<close>.
\<close>

datatype statement = Insert pydict | Select string pyval

text \<open>Compiling a statement (as \<^verbatim>\<open>str(statement)\<close> and \<^verbatim>\<open>execute\<close> both do) rejects an
  INSERT whose values name a column the table does not have.\<close>

fun compile :: "statement \<Rightarrow> exn + unit" where
  "compile (Insert vals) =
     (if dom vals \<subseteq> set column_names then Inr () else Inl CompileError)"
| "compile (Select col v) = Inr ()"

text \<open>The value an INSERT binds to a column: the mapping's value, NULL when the key is
  missing.\<close>

definition bound :: "pydict \<Rightarrow> string \<Rightarrow> pyval" where
  "bound vals n = (case vals n of None \<Rightarrow> PyNone | Some v \<Rightarrow> v)"

definition row_of :: "pydict \<Rightarrow> row" where
  "row_of vals = map (bound vals) column_names"

text \<open>
  INSERT under the declared constraints: NOT NULL (and the primary key's) is checked, then
  the uniqueness of the primary key and of the \<^verbatim>\<open>unique=True\<close> column; only then is the
  row appended. The values are stored as they are given: what a particular database does
  to a value that is not of its column's type is not part of the model, and the statements
  below that speak of stored values do so for values of the columns' types.
\<close>

definition insert_row :: "pydict \<Rightarrow> row list \<Rightarrow> exn + row list" where
  "insert_row vals tbl =
     (if \<exists>c \<in> set users_table. \<not> nullable c \<and> bound vals (col_name c) = PyNone
        then Inl IntegrityError
      else if \<exists>c \<in> set users_table. (primary_key c \<or> unique c) \<and>
                (\<exists>r \<in> set tbl. dict r (col_name c) = Some (bound vals (col_name c)))
        then Inl IntegrityError
      else Inr (tbl @ [row_of vals]))"

text \<open>Running a compiled statement on the table gives the rows it returns and the new
  table.\<close>

fun run :: "statement \<Rightarrow> row list \<Rightarrow> exn + (row list \<times> row list)" where
  "run (Insert vals) tbl =
     (case insert_row vals tbl of Inl err \<Rightarrow> Inl err | Inr tbl' \<Rightarrow> Inr ([], tbl'))"
| "run (Select col v) tbl = Inr (filter (\<lambda>r. dict r col = Some v) tbl, tbl)"

text \<open>
  The environment of a run: \<open>faults E k\<close> is the failure, if any, of the \<open>k\<close>-th
  interaction with the database (a \<^verbatim>\<open>connect\<close> or an \<^verbatim>\<open>execute\<close>), and \<open>rnd E i a b\<close> is
  what the \<open>i\<close>-th call of \<^verbatim>\<open>random.randint\<close> returns when it is called as
  \<^verbatim>\<open>random.randint(a, b)\<close>.
\<close>

record env =
  faults :: "nat \<Rightarrow> exn option"
  rnd :: "nat \<Rightarrow> int \<Rightarrow> int \<Rightarrow> int"

text \<open>What the methods do to the outside is recorded in a trace: connections checked out
  and closed, statements executed (with the connection and the outcome), and what is put on
  the operation's span by \<^verbatim>\<open>add_event\<close> and \<^verbatim>\<open>record_exception\<close>.\<close>

datatype event =
    Connect nat
  | Executed nat statement "exn + row list"
  | Close nat
  | AddEvent string "(string \<times> pyval) list"
  | RecordException exn

record world =
  users :: "row list"
  clock :: nat
  next_conn :: nat
  drawn :: nat
  trace :: "event list"

definition connect :: "env \<Rightarrow> world \<Rightarrow> (exn + nat) \<times> world" where
  "connect E w =
     (case faults E (clock w) of
        Some err \<Rightarrow> (Inl err, w\<lparr>clock := Suc (clock w)\<rparr>)
      | None \<Rightarrow>
          (Inr (next_conn w),
           w\<lparr>clock := Suc (clock w), next_conn := Suc (next_conn w),
             trace := trace w @ [Connect (next_conn w)]\<rparr>))"

definition close :: "nat \<Rightarrow> world \<Rightarrow> world" where
  "close conn w = w\<lparr>trace := trace w @ [Close conn]\<rparr>"

definition outcome :: "env \<Rightarrow> statement \<Rightarrow> world \<Rightarrow> exn + (row list \<times> row list)" where
  "outcome E stmt w =
     (case compile stmt of
        Inl err \<Rightarrow> Inl err
      | Inr _ \<Rightarrow>
          (case faults E (clock w) of
             Some err \<Rightarrow> Inl err
           | None \<Rightarrow> run stmt (users w)))"

definition execute :: "env \<Rightarrow> nat \<Rightarrow> statement \<Rightarrow> world \<Rightarrow> (exn + row list) \<times> world" where
  "execute E conn stmt w =
     (case outcome E stmt w of
        Inl err \<Rightarrow>
          (Inl err,
           w\<lparr>clock := Suc (clock w), trace := trace w @ [Executed conn stmt (Inl err)]\<rparr>)
      | Inr (rows, tbl') \<Rightarrow>
          (Inr rows,
           w\<lparr>users := tbl', clock := Suc (clock w),
             trace := trace w @ [Executed conn stmt (Inr rows)]\<rparr>))"

text \<open>\<^verbatim>\<open>ResultProxy.first()\<close>: the first row, or \<^verbatim>\<open>None\<close>.\<close>

fun first :: "row list \<Rightarrow> row option" where
  "first [] = None"
| "first (r # rs) = Some r"

definition randint :: "env \<Rightarrow> int \<Rightarrow> int \<Rightarrow> world \<Rightarrow> int \<times> world" where
  "randint E a b w = (rnd E (drawn w) a b, w\<lparr>drawn := Suc (drawn w)\<rparr>)"

definition add_event :: "string \<Rightarrow> (string \<times> pyval) list \<Rightarrow> world \<Rightarrow> world" where
  "add_event n attrs w = w\<lparr>trace := trace w @ [AddEvent n attrs]\<rparr>"

definition record_exception :: "exn \<Rightarrow> world \<Rightarrow> world" where
  "record_exception err w = w\<lparr>trace := trace w @ [RecordException err]\<rparr>"

text \<open>\<^verbatim>\<open>except SQLAlchemyError as err: span.record_exception(err); raise err\<close>\<close>

definition except_SQLAlchemyError :: "(exn + 'a) \<times> world \<Rightarrow> (exn + 'a) \<times> world" where
  "except_SQLAlchemyError p =
     (case p of
        (Inl err, w) \<Rightarrow>
          if is_SQLAlchemyError err then (Inl err, record_exception err w) else (Inl err, w)
      | (Inr x, w) \<Rightarrow> (Inr x, w))"

subsection \<open>The methods of \<^verbatim>\<open>UserDb\<close>\<close>

text \<open>
  Spans, span attributes and debug logging do not influence results or the table and are
  left out, except for \<^verbatim>\<open>add_event\<close> and \<^verbatim>\<open>record_exception\<close>, and for
  \<^verbatim>\<open>str(statement)\<close> in the logging call of \<^verbatim>\<open>add_user\<close>, which compiles the INSERT
  before any connection is made and outside the \<^verbatim>\<open>try\<close> (compiling a SELECT cannot fail,
  so the same call in the other two methods is not written out).
\<close>

definition add_user :: "env \<Rightarrow> pydict \<Rightarrow> world \<Rightarrow> (exn + unit) \<times> world" where
  "add_user E user w =
     (let statement = Insert user in
      case compile statement of
        Inl err \<Rightarrow> (Inl err, w)
      | Inr _ \<Rightarrow>
          except_SQLAlchemyError
            (case connect E w of
               (Inl err, w1) \<Rightarrow> (Inl err, w1)
             | (Inr conn, w1) \<Rightarrow>
                 (case execute E conn statement w1 of
                    (Inl err, w2) \<Rightarrow> (Inl err, close conn w2)
                  | (Inr _, w2) \<Rightarrow> (Inr (), close conn w2))))"

text \<open>The value of the local variable \<^verbatim>\<open>accountid\<close> (\<^verbatim>\<open>None\<close> or a string) as a Python
  value.\<close>

fun py :: "string option \<Rightarrow> pyval" where
  "py None = PyNone"
| "py (Some s) = PyStr s"

text \<open>One pass through the body of \<^verbatim>\<open>while accountid is None\<close>; the result is the
  value of \<^verbatim>\<open>accountid\<close> at the end of the pass.\<close>

definition loop_body :: "env \<Rightarrow> nat \<Rightarrow> world \<Rightarrow> (exn + string option) \<times> world" where
  "loop_body E conn w =
     (let (n, w1) = randint E 1000000000 (10000000000 - 1) w;
          accountid = Some (str_int n);
          statement = Select ''accountid'' (py accountid)
      in case execute E conn statement w1 of
           (Inl err, w2) \<Rightarrow> (Inl err, w2)
         | (Inr rows, w2) \<Rightarrow>
             (let result = first rows in
              if result \<noteq> None then
                (let accountid = None
                 in (Inr accountid,
                     add_event ''Account ID exists, retrying''
                       [(''accountid'', py accountid)] w2))
              else (Inr accountid, w2)))"

text \<open>The loop itself. It has no bound, so it is a partial function: \<open>None\<close> is a run that
  never leaves the loop.\<close>

partial_function (option) while_accountid_is_None ::
  "env \<Rightarrow> nat \<Rightarrow> string option \<Rightarrow> world \<Rightarrow> ((exn + string) \<times> world) option" where
  "while_accountid_is_None E conn accountid w =
     (case accountid of
        Some a \<Rightarrow> Some (Inr a, w)
      | None \<Rightarrow>
          (case loop_body E conn w of
             (Inl err, w') \<Rightarrow> Some (Inl err, w')
           | (Inr accountid', w') \<Rightarrow> while_accountid_is_None E conn accountid' w'))"

definition generate_accountid :: "env \<Rightarrow> world \<Rightarrow> ((exn + string) \<times> world) option" where
  "generate_accountid E w =
     (let accountid = None in
      case connect E w of
        (Inl err, w1) \<Rightarrow> Some (except_SQLAlchemyError (Inl err, w1))
      | (Inr conn, w1) \<Rightarrow>
          (case while_accountid_is_None E conn accountid w1 of
             None \<Rightarrow> None
           | Some (r, w2) \<Rightarrow> Some (except_SQLAlchemyError (r, close conn w2))))"

definition get_user :: "env \<Rightarrow> string \<Rightarrow> world \<Rightarrow> (exn + pydict option) \<times> world" where
  "get_user E username w =
     (let statement = Select ''username'' (PyStr username) in
      except_SQLAlchemyError
        (case connect E w of
           (Inl err, w1) \<Rightarrow> (Inl err, w1)
         | (Inr conn, w1) \<Rightarrow>
             (case execute E conn statement w1 of
                (Inl err, w2) \<Rightarrow> (Inl err, close conn w2)
              | (Inr rows, w2) \<Rightarrow>
                  (let result = first rows in
                   (Inr (case result of Some r \<Rightarrow> Some (dict r) | None \<Rightarrow> None),
                    close conn w2)))))"

subsection \<open>Notions used in the statements\<close>

text \<open>An account id is present in a table when some row carries it in column
  \<^verbatim>\<open>accountid\<close>; the \<open>j\<close>-th candidate of a call that starts in world \<open>w\<close> is the decimal
  string of the \<open>j\<close>-th number that \<^verbatim>\<open>random.randint(1_000_000_000, 10_000_000_000 - 1)\<close>
  returns from then on.\<close>

definition present :: "row list \<Rightarrow> string \<Rightarrow> bool" where
  "present tbl a = (\<exists>r \<in> set tbl. dict r ''accountid'' = Some (PyStr a))"

definition candidate :: "env \<Rightarrow> world \<Rightarrow> nat \<Rightarrow> string" where
  "candidate E w j = str_int (rnd E (drawn w + j) 1000000000 (10000000000 - 1))"

text \<open>The contract of \<^verbatim>\<open>random.randint(a, b)\<close>, whatever the bounds: for \<open>a \<le> b\<close> every
  result \<open>N\<close> has \<open>a \<le> N \<le> b\<close>.\<close>

definition randint_contract :: "env \<Rightarrow> bool" where
  "randint_contract E = (\<forall>i a b. a \<le> b \<longrightarrow> a \<le> rnd E i a b \<and> rnd E i a b \<le> b)"

text \<open>The events a pass through the loop may leave on the trace while it holds
  connection \<open>c\<close>: statements executed on \<open>c\<close>, and span events.\<close>

fun on_connection :: "nat \<Rightarrow> event \<Rightarrow> bool" where
  "on_connection c (Executed c' stmt res) = (c' = c)"
| "on_connection c (AddEvent n attrs) = True"
| "on_connection c ev = False"

text \<open>What the handler \<^verbatim>\<open>except SQLAlchemyError\<close> leaves on the trace for an outcome.\<close>

definition recorded :: "exn + 'a \<Rightarrow> event list" where
  "recorded r =
     (case r of
        Inl err \<Rightarrow> if is_SQLAlchemyError err then [RecordException err] else []
      | Inr x \<Rightarrow> [])"

text \<open>A value is of a column's type when it is \<^verbatim>\<open>None\<close> or what the column type holds:
  \<^verbatim>\<open>str\<close> for \<^verbatim>\<open>String\<close>, \<^verbatim>\<open>bytes\<close> for \<^verbatim>\<open>LargeBinary\<close>, a date for \<^verbatim>\<open>Date\<close>. A field mapping
  maps column names to values of the columns' types; it supplies the not-null columns when
  none of them is left out or \<^verbatim>\<open>None\<close>.\<close>

fun conforms :: "coltype \<Rightarrow> pyval \<Rightarrow> bool" where
  "conforms t PyNone = True"
| "conforms String (PyStr s) = True"
| "conforms LargeBinary (PyBytes b) = True"
| "conforms Date (PyDate y m d) = True"
| "conforms t v = False"


definition field_mapping :: "pydict \<Rightarrow> bool" where
  "field_mapping user =
     (dom user \<subseteq> set column_names \<and>
      (\<forall>c \<in> set users_table. conforms (col_type c) (bound user (col_name c))))"

definition supplies_not_null :: "pydict \<Rightarrow> bool" where
  "supplies_not_null user =
     (\<forall>c \<in> set users_table. \<not> nullable c \<longrightarrow> bound user (col_name c) \<noteq> PyNone)"

text \<open>Rows matching a username, and values already taken in a column.\<close>

definition username_is :: "string \<Rightarrow> row \<Rightarrow> bool" where
  "username_is u r = (dict r ''username'' = Some (PyStr u))"

definition taken :: "row list \<Rightarrow> string \<Rightarrow> pyval option \<Rightarrow> bool" where
  "taken tbl col v = (\<exists>r \<in> set tbl. dict r col = v)"

subsection \<open>Concrete tables, mappings and environments\<close>

text \<open>The mapping of the specification's concrete scenario and the row it is stored as.\<close>

definition alice :: pydict where
  "alice =
     [''accountid'' \<mapsto> PyStr ''1234567890'', ''username'' \<mapsto> PyStr ''alice'',
      ''passhash'' \<mapsto> PyBytes [120], ''firstname'' \<mapsto> PyStr ''A'',
      ''lastname'' \<mapsto> PyStr ''B'', ''birthday'' \<mapsto> PyDate 1990 1 1,
      ''timezone'' \<mapsto> PyStr ''UTC'', ''address'' \<mapsto> PyStr ''1 Rd'',
      ''state'' \<mapsto> PyStr ''CA'', ''zip'' \<mapsto> PyStr ''00000'',
      ''ssn'' \<mapsto> PyStr ''000-00-0000'']"

definition alice_row :: row where
  "alice_row =
     [PyStr ''1234567890'', PyStr ''alice'', PyBytes [120], PyStr ''A'', PyStr ''B'',
      PyDate 1990 1 1, PyStr ''UTC'', PyStr ''1 Rd'', PyStr ''CA'', PyStr ''00000'',
      PyStr ''000-00-0000'']"

text \<open>Further mappings: a second user, a mapping with the username of \<open>alice\<close> under
  another account id, a mapping whose account id is not a ten-digit number, the mapping of
  \<open>alice\<close> with one more key that is not a column, and the mapping of \<open>alice\<close> without the
  not-null column \<^verbatim>\<open>firstname\<close>.\<close>

definition bob :: pydict where
  "bob = alice(''accountid'' \<mapsto> PyStr ''2000000000'', ''username'' \<mapsto> PyStr ''bob'')"


definition carol :: pydict where
  "carol = alice(''accountid'' \<mapsto> PyStr ''abc'', ''username'' \<mapsto> PyStr ''carol'')"

definition nick :: pydict where
  "nick = alice(''nickname'' \<mapsto> PyStr ''Al'')"

definition anon :: pydict where
  "anon = alice(''firstname'' := None)"

text \<open>The empty table, the table seeded with the row of \<open>alice\<close>, and the world after
  \<^verbatim>\<open>add_user\<close> has put \<open>alice\<close> into the empty table.\<close>

definition empty_world :: world where
  "empty_world = \<lparr>users = [], clock = 0, next_conn = 0, drawn = 0, trace = []\<rparr>"

definition seeded_world :: world where
  "seeded_world = \<lparr>users = [alice_row], clock = 0, next_conn = 0, drawn = 0, trace = []\<rparr>"

definition alice_added :: world where
  "alice_added =
     \<lparr>users = [alice_row], clock = 2, next_conn = 1, drawn = 0,
      trace = [Connect 0, Executed 0 (Insert alice) (Inr []), Close 0]\<rparr>"

text \<open>A mocked \<^verbatim>\<open>random.randint\<close> produces a chosen number, brought into the bounds it is
  called with. The first mock chooses the account id of \<open>alice\<close> and then a fresh one, the
  second only ever the account id of \<open>alice\<close> (no fault is scheduled in either); the third
  environment is the first with a failure of the third interaction with the database.\<close>

definition mock :: "int \<Rightarrow> int \<Rightarrow> int \<Rightarrow> int" where
  "mock n a b = max a (min b n)"

definition mocked_env :: env where
  "mocked_env =
     \<lparr>faults = (\<lambda>k. None),
      rnd = (\<lambda>i. mock (if i = 0 then 1234567890 else 2000000000))\<rparr>"

definition stuck_env :: env where
  "stuck_env = \<lparr>faults = (\<lambda>k. None), rnd = (\<lambda>i. mock 1234567890)\<rparr>"

definition broken_env :: env where
  "broken_env =
     \<lparr>faults = (\<lambda>k. if k = 2 then Some OperationalError else None),
      rnd = (\<lambda>i. mock (if i = 0 then 1234567890 else 2000000000))\<rparr>"

text \<open>The world after \<^verbatim>\<open>generate_accountid\<close> has run on the seeded table with the mocked
  random source.\<close>

definition mocked_final :: world where
  "mocked_final =
     \<lparr>users = [alice_row], clock = 3, next_conn = 1, drawn = 2,
      trace =
        [Connect 0,
         Executed 0 (Select ''accountid'' (PyStr ''1234567890'')) (Inr [alice_row]),
         AddEvent ''Account ID exists, retrying'' [(''accountid'', PyNone)],
         Executed 0 (Select ''accountid'' (PyStr ''2000000000'')) (Inr []),
         Close 0]\<rparr>"

section \<open>Properties\<close>

subsection \<open>Decimal strings\<close>

lemma str_nat_small: "n < 10 \<Longrightarrow> str_nat n = [digit_char n]"
  by (simp add: str_nat.simps)

lemma str_nat_large: "10 \<le> n \<Longrightarrow> str_nat n = str_nat (n div 10) @ [digit_char (n mod 10)]"
  by (subst str_nat.simps) simp

lemma length_str_nat: "10 ^ k \<le> n \<Longrightarrow> n < 10 ^ Suc k \<Longrightarrow> length (str_nat n) = Suc k"
proof (induction k arbitrary: n)
  case 0
  then show ?case by (simp add: str_nat_small)
next
  case (Suc k)
  have big: "10 \<le> n"
  proof -
    have "(1::nat) \<le> 10 ^ k" by simp
    then have "(10::nat) \<le> 10 ^ Suc k" by simp
    with Suc.prems(1) show ?thesis by linarith
  qed
  have lo: "10 ^ k \<le> n div 10" using Suc.prems(1) by simp
  have hi: "n div 10 < 10 ^ Suc k" using Suc.prems(2) by (simp add: less_mult_imp_div_less)
  show ?case using Suc.IH [OF lo hi] by (simp add: str_nat_large [OF big])
qed

lemma of_char_digit_char:
  assumes "d < 10"
  shows "(of_char (digit_char d) :: nat) = 48 + d"
proof -
  from assms consider "d = 0" | "d = 1" | "d = 2" | "d = 3" | "d = 4"
    | "d = 5" | "d = 6" | "d = 7" | "d = 8" | "d = 9"
    by atomize_elim presburger
  then show ?thesis by cases (simp_all add: digit_char_def)
qed

lemma digit_char_ascii: "d < 10 \<Longrightarrow> is_ascii_digit (digit_char d)"
  by (simp add: is_ascii_digit_def of_char_digit_char)

lemma digits_str_nat: "c \<in> set (str_nat n) \<Longrightarrow> is_ascii_digit c"
proof (induction n arbitrary: c rule: str_nat.induct)
  case (1 n)
  show ?case
  proof (cases "n < 10")
    case True
    with "1.prems" show ?thesis by (auto simp: str_nat_small digit_char_ascii)
  next
    case False
    with "1.prems" "1.IH" show ?thesis
      by (auto simp: str_nat_large digit_char_ascii)
  qed
qed

lemma decimal_value_snoc: "decimal_value (s @ [c]) = 10 * decimal_value s + (of_char c - 48)"
  by (simp add: decimal_value_def)

lemma decimal_value_str_nat: "decimal_value (str_nat n) = n"
proof (induction n rule: str_nat.induct)
  case (1 n)
  show ?case
  proof (cases "n < 10")
    case True
    then show ?thesis by (simp add: str_nat_small decimal_value_def of_char_digit_char)
  next
    case False
    with "1.IH" show ?thesis
      by (simp add: str_nat_large decimal_value_snoc of_char_digit_char)
  qed
qed

subsection \<open>The engine and the loop, step by step\<close>

lemma column_names_eq:
  "column_names = [''accountid'', ''username'', ''passhash'', ''firstname'', ''lastname'',
     ''birthday'', ''timezone'', ''address'', ''state'', ''zip'', ''ssn'']"
  by (simp add: column_names_def users_table_def Column_def)

lemma dict_row_of: "dict (row_of vals) n = (if n \<in> set column_names then Some (bound vals n) else None)"
  by (simp add: dict_def row_of_def map_of_zip_map)

lemma dict_row_of_valid:
  assumes "dom vals = set column_names"
  shows "dict (row_of vals) = vals"
proof
  fix n
  show "dict (row_of vals) n = vals n"
  proof (cases "vals n")
    case None
    then have "n \<notin> set column_names" using assms by auto
    with None show ?thesis by (simp add: dict_row_of)
  next
    case (Some v)
    then have "n \<in> set column_names" using assms by auto
    with Some show ?thesis by (simp add: dict_row_of bound_def)
  qed
qed

lemma connect_ok:
  "faults E (clock w) = None \<Longrightarrow>
   connect E w =
     (Inr (next_conn w),
      w\<lparr>clock := Suc (clock w), next_conn := Suc (next_conn w),
        trace := trace w @ [Connect (next_conn w)]\<rparr>)"
  by (simp add: connect_def)

lemma connect_fault:
  "faults E (clock w) = Some err \<Longrightarrow> connect E w = (Inl err, w\<lparr>clock := Suc (clock w)\<rparr>)"
  by (simp add: connect_def)

lemma execute_select_ok:
  "faults E (clock w) = None \<Longrightarrow>
   execute E conn (Select col v) w =
     (Inr (filter (\<lambda>r. dict r col = Some v) (users w)),
      w\<lparr>clock := Suc (clock w),
        trace := trace w @
          [Executed conn (Select col v) (Inr (filter (\<lambda>r. dict r col = Some v) (users w)))]\<rparr>)"
  by (simp add: execute_def outcome_def)

lemma execute_select_fault:
  "faults E (clock w) = Some err \<Longrightarrow>
   execute E conn (Select col v) w =
     (Inl err,
      w\<lparr>clock := Suc (clock w),
        trace := trace w @ [Executed conn (Select col v) (Inl err)]\<rparr>)"
  by (simp add: execute_def outcome_def)

lemma first_filter_None: "(first (filter P xs) = None) = (\<forall>x \<in> set xs. \<not> P x)"
  by (induction xs) auto

lemma first_filter_present:
  "(first (filter (\<lambda>r. dict r ''accountid'' = Some (PyStr a)) tbl) \<noteq> None) = present tbl a"
  by (simp add: first_filter_None present_def)

lemma first_filter_present_ex:
  "(\<exists>y. first (filter (\<lambda>r. dict r ''accountid'' = Some (PyStr a)) tbl) = Some y) = present tbl a"
  using first_filter_present [of a tbl] by (simp only: not_None_eq)

lemma loop_body_fault:
  "faults E (clock w) = Some err \<Longrightarrow>
   loop_body E conn w =
     (Inl err,
      w\<lparr>clock := Suc (clock w), drawn := Suc (drawn w),
        trace := trace w @
          [Executed conn (Select ''accountid'' (PyStr (candidate E w 0))) (Inl err)]\<rparr>)"
  by (simp add: loop_body_def randint_def execute_select_fault candidate_def)

lemma loop_body_retry:
  "faults E (clock w) = None \<Longrightarrow> present (users w) (candidate E w 0) \<Longrightarrow>
   loop_body E conn w =
     (Inr None,
      w\<lparr>clock := Suc (clock w), drawn := Suc (drawn w),
        trace := trace w @
          [Executed conn (Select ''accountid'' (PyStr (candidate E w 0)))
             (Inr (filter (\<lambda>r. dict r ''accountid'' = Some (PyStr (candidate E w 0))) (users w))),
           AddEvent ''Account ID exists, retrying'' [(''accountid'', PyNone)]]\<rparr>)"
  by (simp add: loop_body_def randint_def execute_select_ok candidate_def Let_def
      first_filter_present_ex add_event_def)

lemma filter_absent:
  "\<not> present tbl a \<Longrightarrow> filter (\<lambda>r. dict r ''accountid'' = Some (PyStr a)) tbl = []"
  by (simp add: present_def filter_empty_conv)

lemma loop_body_accept:
  "faults E (clock w) = None \<Longrightarrow> \<not> present (users w) (candidate E w 0) \<Longrightarrow>
   loop_body E conn w =
     (Inr (Some (candidate E w 0)),
      w\<lparr>clock := Suc (clock w), drawn := Suc (drawn w),
        trace := trace w @
          [Executed conn (Select ''accountid'' (PyStr (candidate E w 0))) (Inr [])]\<rparr>)"
  by (simp add: loop_body_def randint_def execute_select_ok candidate_def Let_def
      filter_absent)

lemma while_Some: "while_accountid_is_None E conn (Some a) w = Some (Inr a, w)"
  by (subst while_accountid_is_None.simps) simp

lemma while_None:
  "while_accountid_is_None E conn None w =
     (case loop_body E conn w of
        (Inl err, w') \<Rightarrow> Some (Inl err, w')
      | (Inr accountid', w') \<Rightarrow> while_accountid_is_None E conn accountid' w')"
  by (subst while_accountid_is_None.simps) simp

lemma while_rule [consumes 1, case_names stop fault step]:
  assumes run: "while_accountid_is_None E conn accountid w = Some y"
    and stop: "\<And>a w. P (Some a) w (Inr a, w)"
    and fault: "\<And>w err w'. loop_body E conn w = (Inl err, w') \<Longrightarrow> P None w (Inl err, w')"
    and step: "\<And>w accountid' w' y.
       loop_body E conn w = (Inr accountid', w') \<Longrightarrow> P accountid' w' y \<Longrightarrow> P None w y"
  shows "P accountid w y"
proof -
  have "E = E \<longrightarrow> conn = conn \<longrightarrow> P accountid w y"
  proof (rule while_accountid_is_None.raw_induct
      [where P = "\<lambda>E' conn' accountid w y. E' = E \<longrightarrow> conn' = conn \<longrightarrow> P accountid w y",
       OF _ run])
    fix f E' conn' accountid w y
    assume IH: "\<And>E'' conn'' accountid w y. f E'' conn'' accountid w = Some y \<Longrightarrow>
        E'' = E \<longrightarrow> conn'' = conn \<longrightarrow> P accountid w y"
      and unfolded: "(case accountid of
          None \<Rightarrow>
            (case loop_body E' conn' w of
               (Inl err, w') \<Rightarrow> Some (Inl err, w')
             | (Inr accountid', w') \<Rightarrow> f E' conn' accountid' w')
        | Some a \<Rightarrow> Some (Inr a, w)) = Some y"
    show "E' = E \<longrightarrow> conn' = conn \<longrightarrow> P accountid w y"
    proof (intro impI)
      assume eq: "E' = E" "conn' = conn"
      show "P accountid w y"
      proof (cases accountid)
        case (Some a)
        with unfolded have "y = (Inr a, w)" by simp
        with Some stop show ?thesis by simp
      next
        case None
        obtain r w' where body: "loop_body E conn w = (r, w')" by (cases "loop_body E conn w")
        show ?thesis
        proof (cases r)
          case (Inl err)
          with unfolded None body eq have "y = (Inl err, w')" by simp
          with fault [of w err w'] body Inl None show ?thesis by simp
        next
          case (Inr accountid')
          with unfolded None body eq have "f E conn accountid' w' = Some y" by simp
          then have "P accountid' w' y" using IH by blast
          with step [of w accountid' w' y] body Inr None show ?thesis by simp
        qed
      qed
    qed
  qed
  then show ?thesis by simp
qed

lemma loop_body_cases:
  obtains
    (fault) err where "faults E (clock w) = Some err"
  | (retry) "faults E (clock w) = None" "present (users w) (candidate E w 0)"
  | (accept) "faults E (clock w) = None" "\<not> present (users w) (candidate E w 0)"
  by (cases "faults E (clock w)") auto

lemma loop_body_world:
  assumes "loop_body E conn w = (r, w')"
  shows "users w' = users w \<and> clock w' = Suc (clock w) \<and> drawn w' = Suc (drawn w)
     \<and> next_conn w' = next_conn w"
proof (cases rule: loop_body_cases [of E w])
  case (fault err)
  from loop_body_fault [OF this, of conn] assms show ?thesis by auto
next
  case retry
  from loop_body_retry [OF this, of conn] assms show ?thesis by auto
next
  case accept
  from loop_body_accept [OF this, of conn] assms show ?thesis by auto
qed

lemma while_retries:
  assumes "\<forall>j<n. faults E (clock w + j) = None \<and> present (users w) (candidate E w j)"
  shows "\<exists>w'. while_accountid_is_None E conn None w = while_accountid_is_None E conn None w'
     \<and> users w' = users w \<and> clock w' = clock w + n \<and> drawn w' = drawn w + n"
  using assms
proof (induction n arbitrary: w)
  case 0
  show ?case by (rule exI [of _ w]) simp
next
  case (Suc n)
  from Suc.prems have f0: "faults E (clock w) = None" and p0: "present (users w) (candidate E w 0)"
    by (metis add.right_neutral zero_less_Suc)+
  obtain w1 where body: "loop_body E conn w = (Inr None, w1)"
    using loop_body_retry [OF f0 p0, of conn] by blast
  from loop_body_world [OF body]
  have w1: "users w1 = users w" "clock w1 = Suc (clock w)" "drawn w1 = Suc (drawn w)" by simp_all
  have "\<forall>j<n. faults E (clock w1 + j) = None \<and> present (users w1) (candidate E w1 j)"
  proof (intro allI impI)
    fix j assume "j < n"
    then have "Suc j < Suc n" by simp
    with Suc.prems have "faults E (clock w + Suc j) = None \<and> present (users w) (candidate E w (Suc j))"
      by blast
    then show "faults E (clock w1 + j) = None \<and> present (users w1) (candidate E w1 j)"
      by (simp add: w1 candidate_def)
  qed
  from Suc.IH [OF this] obtain w' where
    w': "while_accountid_is_None E conn None w1 = while_accountid_is_None E conn None w'"
      "users w' = users w1" "clock w' = clock w1 + n" "drawn w' = drawn w1 + n"
    by blast
  have "while_accountid_is_None E conn None w = while_accountid_is_None E conn None w1"
    by (simp add: while_None body)
  with w' w1 show ?case by (intro exI [of _ w']) simp
qed

lemma while_first_absent:
  assumes retries: "\<forall>j<n. faults E (clock w + j) = None \<and> present (users w) (candidate E w j)"
    and ok: "faults E (clock w + n) = None"
    and absent: "\<not> present (users w) (candidate E w n)"
  shows "\<exists>w'. while_accountid_is_None E conn None w = Some (Inr (candidate E w n), w')"
proof -
  from while_retries [OF retries, of conn] obtain w1 where
    w1: "while_accountid_is_None E conn None w = while_accountid_is_None E conn None w1"
      "users w1 = users w" "clock w1 = clock w + n" "drawn w1 = drawn w + n"
    by blast
  have c: "candidate E w1 0 = candidate E w n" by (simp add: candidate_def w1)
  have "faults E (clock w1) = None" "\<not> present (users w1) (candidate E w1 0)"
    using ok absent by (simp_all add: w1 c)
  from loop_body_accept [OF this, of conn] obtain w' where
    "loop_body E conn w1 = (Inr (Some (candidate E w n)), w')" by (simp add: c)
  then have "while_accountid_is_None E conn None w1 = Some (Inr (candidate E w n), w')"
    by (simp add: while_None while_Some)
  with w1 show ?thesis by simp
qed

lemma while_fault_at:
  assumes retries: "\<forall>j<n. faults E (clock w + j) = None \<and> present (users w) (candidate E w j)"
    and bad: "faults E (clock w + n) = Some err"
  shows "\<exists>w'. while_accountid_is_None E conn None w = Some (Inl err, w')
     \<and> clock w' = clock w + Suc n \<and> drawn w' = drawn w + Suc n"
proof -
  from while_retries [OF retries, of conn] obtain w1 where
    w1: "while_accountid_is_None E conn None w = while_accountid_is_None E conn None w1"
      "users w1 = users w" "clock w1 = clock w + n" "drawn w1 = drawn w + n"
    by blast
  have "faults E (clock w1) = Some err" using bad by (simp add: w1)
  from loop_body_fault [OF this, of conn] obtain w' where
    body: "loop_body E conn w1 = (Inl err, w')" by simp
  from loop_body_world [OF body] have "clock w' = clock w + Suc n" "drawn w' = drawn w + Suc n"
    by (simp_all add: w1)
  moreover have "while_accountid_is_None E conn None w1 = Some (Inl err, w')"
    by (simp add: while_None body)
  ultimately show ?thesis using w1 by simp
qed

lemma while_diverges:
  assumes "\<forall>j. faults E (clock w + j) = None \<and> present (users w) (candidate E w j)"
  shows "while_accountid_is_None E conn None w = None"
proof (rule ccontr)
  assume "while_accountid_is_None E conn None w \<noteq> None"
  then obtain y where run: "while_accountid_is_None E conn None w = Some y" by blast
  have "accountid = None \<longrightarrow>
      \<not> (\<forall>j. faults E (clock w + j) = None \<and> present (users w) (candidate E w j))"
    if "while_accountid_is_None E conn accountid w = Some y" for accountid w y
    using that
  proof (induction rule: while_rule)
    case (stop a w)
    show ?case by simp
  next
    case (fault w err w')
    have "faults E (clock w) \<noteq> None"
    proof (cases rule: loop_body_cases [of E w])
      case (fault e) then show ?thesis by simp
    next
      case retry
      from loop_body_retry [OF this, of conn] fault show ?thesis by simp
    next
      case accept
      from loop_body_accept [OF this, of conn] fault show ?thesis by simp
    qed
    then show ?case by (metis add.right_neutral)
  next
    case (step w accountid' w' y)
    show ?case
    proof (intro impI notI)
      assume all: "\<forall>j. faults E (clock w + j) = None \<and> present (users w) (candidate E w j)"
      then have f0: "faults E (clock w) = None" and p0: "present (users w) (candidate E w 0)"
        by (metis add.right_neutral)+
      from loop_body_retry [OF f0 p0, of conn] step(1) have acc: "accountid' = None" by simp
      from loop_body_world [OF step(1)]
      have w1: "users w' = users w" "clock w' = Suc (clock w)" "drawn w' = Suc (drawn w)"
        by simp_all
      have "\<forall>j. faults E (clock w' + j) = None \<and> present (users w') (candidate E w' j)"
      proof
        fix j
        from all have "faults E (clock w + Suc j) = None \<and> present (users w) (candidate E w (Suc j))"
          by blast
        then show "faults E (clock w' + j) = None \<and> present (users w') (candidate E w' j)"
          by (simp add: w1 candidate_def)
      qed
      with step(2) acc show False by simp
    qed
  qed
  with run assms show False by blast
qed

subsection \<open>Generated account ids\<close>

lemma str_int_in_range:
  assumes "1000000000 \<le> n" "n \<le> 10000000000 - 1"
  shows "length (str_int n) = 10 \<and> (\<forall>c \<in> set (str_int n). is_ascii_digit c)
     \<and> decimal_value (str_int n) = nat n"
proof -
  have s: "str_int n = str_nat (nat n)" using assms by (simp add: str_int_def)
  have "10 ^ 9 \<le> nat n" "nat n < 10 ^ Suc 9" using assms by simp_all
  then have "length (str_nat (nat n)) = Suc 9" by (rule length_str_nat)
  then show ?thesis by (simp add: s digits_str_nat decimal_value_str_nat)
qed

lemma loop_body_Some:
  assumes "loop_body E conn w = (Inr (Some a), w')"
  shows "a = candidate E w 0 \<and> faults E (clock w) = None \<and> \<not> present (users w) a
     \<and> trace w' = trace w @ [Executed conn (Select ''accountid'' (PyStr a)) (Inr [])]"
proof (cases rule: loop_body_cases [of E w])
  case (fault err)
  from loop_body_fault [OF this, of conn] assms show ?thesis by simp
next
  case retry
  from loop_body_retry [OF this, of conn] assms show ?thesis by simp
next
  case accept
  from loop_body_accept [OF this, of conn] assms accept show ?thesis by auto
qed

lemma while_result_drawn:
  assumes "while_accountid_is_None E conn accountid w = Some y"
  shows "\<forall>a. fst y = Inr a \<longrightarrow> accountid = Some a \<or> (\<exists>i. a = str_int (rnd E i 1000000000 (10000000000 - 1)))"
  using assms
proof (induction rule: while_rule)
  case (stop a w)
  show ?case by simp
next
  case (fault w err w')
  show ?case by simp
next
  case (step w accountid' w' y)
  show ?case
  proof (intro allI impI)
    fix a assume "fst y = Inr a"
    with step(2) have "accountid' = Some a \<or> (\<exists>i. a = str_int (rnd E i 1000000000 (10000000000 - 1)))" by blast
    then show "None = Some a \<or> (\<exists>i. a = str_int (rnd E i 1000000000 (10000000000 - 1)))"
    proof
      assume "accountid' = Some a"
      with loop_body_Some [of E conn w a w'] step(1) have "a = candidate E w 0" by simp
      then show ?thesis by (auto simp: candidate_def)
    qed simp
  qed
qed

lemma fst_except [simp]: "fst (except_SQLAlchemyError p) = fst p"
  by (cases p) (auto simp: except_SQLAlchemyError_def split: sum.splits)

lemma generate_connected:
  assumes "connect E w = (Inr conn, w1)"
  shows "generate_accountid E w =
     map_option (\<lambda>y. except_SQLAlchemyError (fst y, close conn (snd y)))
       (while_accountid_is_None E conn None w1)"
  by (cases "while_accountid_is_None E conn None w1")
    (simp_all add: generate_accountid_def assms split_beta)

lemma generate_not_connected:
  assumes "connect E w = (Inl err, w1)"
  shows "generate_accountid E w = Some (except_SQLAlchemyError (Inl err, w1))"
  by (simp add: generate_accountid_def assms)

lemma generate_connected_fst:
  assumes "connect E w = (Inr conn, w1)"
  shows "map_option fst (generate_accountid E w) =
     map_option fst (while_accountid_is_None E conn None w1)"
  by (simp add: generate_connected [OF assms] option.map_comp comp_def)

lemma generate_result_drawn:
  assumes "map_option fst (generate_accountid E w) = Some (Inr a)"
  shows "\<exists>i. a = str_int (rnd E i 1000000000 (10000000000 - 1))"
proof -
  obtain r w1 where c: "connect E w = (r, w1)" by (cases "connect E w")
  show ?thesis
  proof (cases r)
    case (Inl err)
    with assms c show ?thesis by (simp add: generate_not_connected)
  next
    case (Inr conn)
    with c have "connect E w = (Inr conn, w1)" by simp
    from generate_connected_fst [OF this] assms
    obtain y where run: "while_accountid_is_None E conn None w1 = Some y"
      and "fst y = Inr a"
      by (cases "while_accountid_is_None E conn None w1") simp_all
    with while_result_drawn [OF run] show ?thesis by simp
  qed
qed

lemma mock_in_bounds: "a \<le> b \<Longrightarrow> a \<le> mock n a b \<and> mock n a b \<le> b"
  by (simp add: mock_def)

lemma mock_chosen [simp]:
  "mock 1234567890 1000000000 9999999999 = 1234567890"
  "mock 2000000000 1000000000 9999999999 = 2000000000"
  by (simp_all add: mock_def)

lemma str_1234567890: "str_int 1234567890 = ''1234567890''"
  by (simp add: str_int_def str_nat.simps digit_char_def)

lemma str_2000000000: "str_int 2000000000 = ''2000000000''"
  by (simp add: str_int_def str_nat.simps digit_char_def)

lemma mocked_candidates:
  "candidate mocked_env seeded_world 0 = ''1234567890''"
  "candidate mocked_env seeded_world (Suc 0) = ''2000000000''"
  by (simp_all add: candidate_def mocked_env_def seeded_world_def str_1234567890 str_2000000000)

lemma seeded_present:
  "present (users seeded_world) ''1234567890''"
  "\<not> present (users seeded_world) ''2000000000''"
  by (simp_all add: present_def seeded_world_def alice_row_def dict_def column_names_eq)

lemma mocked_contract: "randint_contract mocked_env"
  by (simp add: randint_contract_def mocked_env_def mock_in_bounds)

lemma generate_first_absent:
  assumes faults: "\<forall>k\<le>Suc n. faults E (clock w + k) = None"
    and retries: "\<forall>j<n. present (users w) (candidate E w j)"
    and absent: "\<not> present (users w) (candidate E w n)"
  shows "map_option fst (generate_accountid E w) = Some (Inr (candidate E w n))"
proof -
  from faults have "faults E (clock w) = None" by (metis add.right_neutral le0)
  note c = connect_ok [OF this]
  define w1 where "w1 = w\<lparr>clock := Suc (clock w), next_conn := Suc (next_conn w),
        trace := trace w @ [Connect (next_conn w)]\<rparr>"
  have w1: "users w1 = users w" "clock w1 = Suc (clock w)" "drawn w1 = drawn w"
    by (simp_all add: w1_def)
  have cand: "candidate E w1 j = candidate E w j" for j by (simp add: candidate_def w1)
  have f: "faults E (clock w1 + j) = None" if "j \<le> n" for j
  proof -
    from that have "Suc j \<le> Suc n" by simp
    with faults have "faults E (clock w + Suc j) = None" by blast
    then show ?thesis by (simp add: w1)
  qed
  have "\<forall>j<n. faults E (clock w1 + j) = None \<and> present (users w1) (candidate E w1 j)"
    using f retries by (simp add: w1 cand)
  moreover have "faults E (clock w1 + n) = None" using f by simp
  moreover have "\<not> present (users w1) (candidate E w1 n)" using absent by (simp add: w1 cand)
  ultimately obtain w' where
    "while_accountid_is_None E (next_conn w) None w1 = Some (Inr (candidate E w1 n), w')"
    using while_first_absent [of n E w1 "next_conn w"] by blast
  with generate_connected_fst [OF c, folded w1_def] show ?thesis by (simp add: cand)
qed

lemma generate_diverges:
  assumes faults: "\<forall>k. faults E (clock w + k) = None"
    and all: "\<forall>j. present (users w) (candidate E w j)"
  shows "generate_accountid E w = None"
proof -
  from faults have "faults E (clock w) = None" by (metis add.right_neutral)
  note c = connect_ok [OF this]
  define w1 where "w1 = w\<lparr>clock := Suc (clock w), next_conn := Suc (next_conn w),
        trace := trace w @ [Connect (next_conn w)]\<rparr>"
  have w1: "users w1 = users w" "clock w1 = Suc (clock w)" "drawn w1 = drawn w"
    by (simp_all add: w1_def)
  have "\<forall>j. faults E (clock w1 + j) = None \<and> present (users w1) (candidate E w1 j)"
  proof
    fix j
    from faults have "faults E (clock w + Suc j) = None" by blast
    with all show "faults E (clock w1 + j) = None \<and> present (users w1) (candidate E w1 j)"
      by (simp add: w1 candidate_def)
  qed
  from while_diverges [OF this] generate_connected [OF c, folded w1_def] show ?thesis
    by simp
qed

lemma stuck_candidates: "candidate stuck_env seeded_world j = ''1234567890''"
  by (simp add: candidate_def stuck_env_def str_1234567890)

subsection \<open>What a call leaves on the trace\<close>

lemma loop_body_trace:
  assumes "loop_body E conn w = (r, w')"
  shows "\<exists>res. trace w' =
      trace w @ Executed conn (Select ''accountid'' (PyStr (candidate E w 0))) res #
        (if r = Inr None then [AddEvent ''Account ID exists, retrying'' [(''accountid'', PyNone)]]
         else [])"
proof (cases rule: loop_body_cases [of E w])
  case (fault err)
  from loop_body_fault [OF this, of conn] assms show ?thesis by auto
next
  case retry
  from loop_body_retry [OF this, of conn] assms show ?thesis by auto
next
  case accept
  from loop_body_accept [OF this, of conn] assms show ?thesis by auto
qed

lemma loop_body_on_connection:
  assumes "loop_body E conn w = (r, w')"
  shows "\<exists>evs. trace w' = trace w @ evs \<and> list_all (on_connection conn) evs"
proof -
  from loop_body_trace [OF assms] obtain res where
    "trace w' = trace w @ Executed conn (Select ''accountid'' (PyStr (candidate E w 0))) res #
        (if r = Inr None then [AddEvent ''Account ID exists, retrying'' [(''accountid'', PyNone)]]
         else [])" by blast
  then show ?thesis by (cases "r = Inr None") simp_all
qed

lemma while_world:
  assumes "while_accountid_is_None E conn accountid w = Some y"
  shows "users (snd y) = users w \<and> next_conn (snd y) = next_conn w
     \<and> (\<exists>evs. trace (snd y) = trace w @ evs \<and> list_all (on_connection conn) evs)"
  using assms
proof (induction rule: while_rule)
  case (stop a w)
  show ?case by simp
next
  case (fault w err w')
  from loop_body_world [OF fault] loop_body_on_connection [OF fault] show ?case by simp
next
  case (step w accountid' w' y)
  from loop_body_on_connection [OF step(1)] obtain evs1 where
    e1: "trace w' = trace w @ evs1" "list_all (on_connection conn) evs1" by blast
  from step(2) obtain evs2 where
    e2: "trace (snd y) = trace w' @ evs2" "list_all (on_connection conn) evs2" by blast
  have "trace (snd y) = trace w @ (evs1 @ evs2) \<and> list_all (on_connection conn) (evs1 @ evs2)"
    using e1 e2 by simp
  then have "\<exists>evs. trace (snd y) = trace w @ evs \<and> list_all (on_connection conn) evs" by blast
  with step(2) loop_body_world [OF step(1)] show ?case by simp
qed

lemma while_observed:
  assumes "while_accountid_is_None E conn accountid w = Some y"
  shows "case accountid of
        Some a' \<Rightarrow> y = (Inr a', w)
      | None \<Rightarrow> (\<forall>a. fst y = Inr a \<longrightarrow> \<not> present (users w) a \<and>
          (\<exists>evs. trace (snd y) =
             trace w @ evs @ [Executed conn (Select ''accountid'' (PyStr a)) (Inr [])]
             \<and> list_all (on_connection conn) evs))"
  using assms
proof (induction rule: while_rule)
  case (stop a w)
  show ?case by simp
next
  case (fault w err w')
  show ?case by simp
next
  case (step w accountid' w' y)
  have "\<not> present (users w) a \<and>
          (\<exists>evs. trace (snd y) =
             trace w @ evs @ [Executed conn (Select ''accountid'' (PyStr a)) (Inr [])]
             \<and> list_all (on_connection conn) evs)" if res: "fst y = Inr a" for a
  proof (cases accountid')
    case (Some a')
    with step(2) have y: "y = (Inr a', w')" by simp
    with res have "a' = a" by simp
    with step(1) Some have b: "loop_body E conn w = (Inr (Some a), w')" by simp
    have "\<not> present (users w) a" using loop_body_Some [OF b] by blast
    moreover
    have "trace w' = trace w @ [Executed conn (Select ''accountid'' (PyStr a)) (Inr [])]"
      using loop_body_Some [OF b] by blast
    then have "trace w' = trace w @ [] @ [Executed conn (Select ''accountid'' (PyStr a)) (Inr [])]"
      by simp
    moreover have "list_all (on_connection conn) []" by simp
    ultimately show ?thesis unfolding y snd_conv by blast
  next
    case None
    with step(2) res obtain evs where
      a: "\<not> present (users w') a"
        "trace (snd y) = trace w' @ evs @ [Executed conn (Select ''accountid'' (PyStr a)) (Inr [])]"
        "list_all (on_connection conn) evs"
      by auto
    from loop_body_on_connection [OF step(1)] obtain evs1 where
      e1: "trace w' = trace w @ evs1" "list_all (on_connection conn) evs1" by blast
    from a e1 have "trace (snd y) =
        trace w @ (evs1 @ evs) @ [Executed conn (Select ''accountid'' (PyStr a)) (Inr [])]
        \<and> list_all (on_connection conn) (evs1 @ evs)" by simp
    then have "\<exists>evs. trace (snd y) =
           trace w @ evs @ [Executed conn (Select ''accountid'' (PyStr a)) (Inr [])]
           \<and> list_all (on_connection conn) evs" by blast
    with a(1) loop_body_world [OF step(1)] show ?thesis by simp
  qed
  then show ?case by simp
qed

subsection \<open>The whole call\<close>

lemma alice_accountid: "dict alice_row ''accountid'' = Some (PyStr ''1234567890'')"
  by (simp add: dict_def alice_row_def column_names_eq)

lemma generate_mocked:
  "generate_accountid mocked_env seeded_world = Some (Inr ''2000000000'', mocked_final)"
  by (simp add: generate_accountid_def connect_def while_None while_Some loop_body_def
      randint_def execute_def outcome_def close_def add_event_def except_SQLAlchemyError_def
      seeded_world_def mocked_env_def mocked_final_def str_1234567890 str_2000000000
      alice_accountid)

lemma except_recorded:
  "except_SQLAlchemyError (r, w) = (r, w\<lparr>trace := trace w @ recorded r\<rparr>)"
  by (cases r) (simp_all add: except_SQLAlchemyError_def recorded_def record_exception_def)

lemma connect_cases:
  obtains
    (failed) err where "faults E (clock w) = Some err"
      "connect E w = (Inl err, w\<lparr>clock := Suc (clock w)\<rparr>)"
  | (connected) "faults E (clock w) = None"
      "connect E w =
         (Inr (next_conn w),
          w\<lparr>clock := Suc (clock w), next_conn := Suc (next_conn w),
            trace := trace w @ [Connect (next_conn w)]\<rparr>)"
  by (cases "faults E (clock w)") (auto simp: connect_def)

lemma generate_trace:
  assumes run: "generate_accountid E w = Some (r, w')"
    and conn: "fst (connect E w) = Inr c"
  shows "c = next_conn w \<and> users w' = users w \<and>
     (\<exists>evs. trace w' = trace w @ Connect c # evs @ Close c # recorded r
        \<and> list_all (on_connection c) evs
        \<and> (\<forall>a. r = Inr a \<longrightarrow> \<not> present (users w) a \<and>
              (\<exists>evs'. evs = evs' @ [Executed c (Select ''accountid'' (PyStr a)) (Inr [])])))"
proof (cases rule: connect_cases [of E w])
  case (failed err)
  with conn show ?thesis by simp
next
  case connected
  define w1 where "w1 = w\<lparr>clock := Suc (clock w), next_conn := Suc (next_conn w),
            trace := trace w @ [Connect (next_conn w)]\<rparr>"
  from connected conn have c: "c = next_conn w" and cw: "connect E w = (Inr c, w1)"
    by (simp_all add: w1_def)
  have w1: "users w1 = users w" "trace w1 = trace w @ [Connect c]" by (simp_all add: w1_def c)
  from run generate_connected [OF cw] obtain y where
    y: "while_accountid_is_None E c None w1 = Some y"
    and fin: "(r, w') = except_SQLAlchemyError (fst y, close c (snd y))"
    by (cases "while_accountid_is_None E c None w1") simp_all
  from fin have r: "r = fst y"
    and w': "w' = (close c (snd y))\<lparr>trace := trace (close c (snd y)) @ recorded r\<rparr>"
    by (simp_all add: except_recorded)
  from while_world [OF y] obtain evs where
    evs: "users (snd y) = users w1" "trace (snd y) = trace w1 @ evs"
      "list_all (on_connection c) evs" by blast
  have tr: "trace w' = trace w @ Connect c # evs @ Close c # recorded r"
    by (simp add: w' close_def evs w1)
  have us: "users w' = users w" by (simp add: w' close_def evs w1)
  have last: "\<not> present (users w) a \<and>
      (\<exists>evs'. evs = evs' @ [Executed c (Select ''accountid'' (PyStr a)) (Inr [])])"
    if "r = Inr a" for a
  proof -
    from while_observed [OF y] that r obtain evs' where
      "\<not> present (users w1) a"
      "trace (snd y) = trace w1 @ evs' @ [Executed c (Select ''accountid'' (PyStr a)) (Inr [])]"
      by auto
    with evs(2) w1 show ?thesis by auto
  qed
  from c us tr evs(3) last show ?thesis by blast
qed

lemma generate_trace_not_connected:
  assumes run: "generate_accountid E w = Some (r, w')"
    and conn: "fst (connect E w) = Inl err"
  shows "r = Inl err \<and> trace w' = trace w @ recorded r"
proof (cases rule: connect_cases [of E w])
  case (failed err')
  with conn have "err' = err" by simp
  with failed run generate_not_connected [OF failed(2)] show ?thesis
    by (auto simp: except_recorded)
next
  case connected
  with conn show ?thesis by simp
qed

lemma connect_mocked: "fst (connect mocked_env seeded_world) = Inr 0"
  by (simp add: connect_def mocked_env_def seeded_world_def)

lemma loop_body_mocked:
  "loop_body mocked_env 0 seeded_world =
     (Inr None,
      seeded_world\<lparr>clock := 1, drawn := 1,
        trace := [Executed 0 (Select ''accountid'' (PyStr ''1234567890'')) (Inr [alice_row]),
                  AddEvent ''Account ID exists, retrying'' [(''accountid'', PyNone)]]\<rparr>)"
  by (simp add: loop_body_def randint_def execute_def outcome_def add_event_def
      seeded_world_def mocked_env_def str_1234567890 alice_accountid)

subsection \<open>Adding and fetching users\<close>

declare compile.simps(1) [simp del]


lemma execute_insert_rejected:
  "compile (Insert user) = Inr () \<Longrightarrow> faults E (clock w) = None \<Longrightarrow>
   insert_row user (users w) = Inl err \<Longrightarrow>
   execute E conn (Insert user) w =
     (Inl err,
      w\<lparr>clock := Suc (clock w), trace := trace w @ [Executed conn (Insert user) (Inl err)]\<rparr>)"
  by (simp add: execute_def outcome_def)

lemma execute_insert_accepted:
  "compile (Insert user) = Inr () \<Longrightarrow> faults E (clock w) = None \<Longrightarrow>
   insert_row user (users w) = Inr tbl \<Longrightarrow>
   execute E conn (Insert user) w =
     (Inr [],
      w\<lparr>users := tbl, clock := Suc (clock w),
        trace := trace w @ [Executed conn (Insert user) (Inr [])]\<rparr>)"
  by (simp add: execute_def outcome_def)

lemma add_user_not_compiled:
  "compile (Insert user) = Inl err \<Longrightarrow> add_user E user w = (Inl err, w)"
  by (simp add: add_user_def)

lemma add_user_not_connected:
  "compile (Insert user) = Inr () \<Longrightarrow> connect E w = (Inl err, w1) \<Longrightarrow>
   add_user E user w = (Inl err, w1\<lparr>trace := trace w1 @ recorded (Inl err :: exn + unit)\<rparr>)"
  by (simp add: add_user_def except_recorded)

lemma add_user_failed:
  "compile (Insert user) = Inr () \<Longrightarrow> connect E w = (Inr conn, w1) \<Longrightarrow>
   execute E conn (Insert user) w1 = (Inl err, w2) \<Longrightarrow>
   add_user E user w =
     (Inl err, w2\<lparr>trace := trace w2 @ Close conn # recorded (Inl err :: exn + unit)\<rparr>)"
  by (simp add: add_user_def except_recorded close_def)

lemma add_user_done:
  "compile (Insert user) = Inr () \<Longrightarrow> connect E w = (Inr conn, w1) \<Longrightarrow>
   execute E conn (Insert user) w1 = (Inr rows, w2) \<Longrightarrow>
   add_user E user w = (Inr (), w2\<lparr>trace := trace w2 @ [Close conn]\<rparr>)"
  by (simp add: add_user_def except_recorded close_def recorded_def)

lemma add_user_rejected:
  assumes "compile (Insert user) = Inr ()"
    and "faults E (clock w) = None" and "faults E (Suc (clock w)) = None"
    and "insert_row user (users w) = Inl err"
  shows "add_user E user w =
     (Inl err,
      w\<lparr>clock := Suc (Suc (clock w)), next_conn := Suc (next_conn w),
        trace := trace w @
          [Connect (next_conn w), Executed (next_conn w) (Insert user) (Inl err),
           Close (next_conn w)] @ recorded (Inl err :: exn + unit)\<rparr>)"
  by (simp add: add_user_def assms connect_ok [OF assms(2)] execute_insert_rejected
      except_recorded close_def)

lemma add_user_accepted:
  assumes "compile (Insert user) = Inr ()"
    and "faults E (clock w) = None" and "faults E (Suc (clock w)) = None"
    and "insert_row user (users w) = Inr tbl"
  shows "add_user E user w =
     (Inr (),
      w\<lparr>users := tbl, clock := Suc (Suc (clock w)), next_conn := Suc (next_conn w),
        trace := trace w @
          [Connect (next_conn w), Executed (next_conn w) (Insert user) (Inr []),
           Close (next_conn w)]\<rparr>)"
  by (simp add: add_user_def assms connect_ok [OF assms(2)] execute_insert_accepted
      except_recorded close_def recorded_def)

lemma get_user_not_connected:
  "connect E w = (Inl err, w1) \<Longrightarrow>
   get_user E u w =
     (Inl err, w1\<lparr>trace := trace w1 @ recorded (Inl err :: exn + pydict option)\<rparr>)"
  by (simp add: get_user_def except_recorded)

lemma get_user_failed:
  "connect E w = (Inr conn, w1) \<Longrightarrow>
   execute E conn (Select ''username'' (PyStr u)) w1 = (Inl err, w2) \<Longrightarrow>
   get_user E u w =
     (Inl err, w2\<lparr>trace := trace w2 @ Close conn # recorded (Inl err :: exn + pydict option)\<rparr>)"
  by (simp add: get_user_def except_recorded close_def)

lemma get_user_ok:
  assumes "faults E (clock w) = None" and "faults E (Suc (clock w)) = None"
  shows "get_user E u w =
     (Inr (map_option dict (first (filter (username_is u) (users w)))),
      w\<lparr>clock := Suc (Suc (clock w)), next_conn := Suc (next_conn w),
        trace := trace w @
          [Connect (next_conn w),
           Executed (next_conn w) (Select ''username'' (PyStr u))
             (Inr (filter (username_is u) (users w))),
           Close (next_conn w)]\<rparr>)"
proof -
  have f: "(\<lambda>r. dict r ''username'' = Some (PyStr u)) = username_is u"
    by (simp add: username_is_def [abs_def])
  show ?thesis
    by (cases "first (filter (username_is u) (users w))")
      (simp_all add: get_user_def connect_ok [OF assms(1)] execute_select_ok assms(2)
        except_recorded close_def recorded_def f Let_def)
qed

lemma first_filter_first:
  assumes "\<forall>x \<in> set pre. \<not> P x" and "P r"
  shows "first (filter P (pre @ r # post)) = Some r"
  using assms by (induction pre) simp_all

subsection \<open>INSERT under the constraints\<close>

lemma key_columns:
  "(\<exists>c \<in> set users_table. (primary_key c \<or> unique c) \<and> Q (col_name c)) =
     (Q ''accountid'' \<or> Q ''username'')"
  by (simp add: users_table_def Column_def)

lemma not_null_columns:
  "(\<exists>c \<in> set users_table. \<not> nullable c \<and> Q (col_name c)) = (\<exists>n \<in> set column_names. Q n)"
  by (simp add: column_names_def users_table_def Column_def)


lemma bound_Some: "bound user n \<noteq> PyNone \<Longrightarrow> user n = Some (bound user n)"
  by (cases "user n") (simp_all add: bound_def)

lemma insert_row_accepts:
  assumes "supplies_not_null user"
    and "\<forall>r \<in> set tbl. dict r ''accountid'' \<noteq> Some (bound user ''accountid'')"
    and "\<forall>r \<in> set tbl. dict r ''username'' \<noteq> Some (bound user ''username'')"
  shows "insert_row user tbl = Inr (tbl @ [row_of user])"
proof -
  have b: "\<not> (\<exists>c \<in> set users_table. \<not> nullable c \<and> bound user (col_name c) = PyNone)"
    using assms(1) by (auto simp: supplies_not_null_def)
  have c: "\<not> (\<exists>c \<in> set users_table. (primary_key c \<or> unique c) \<and>
                (\<exists>r \<in> set tbl. dict r (col_name c) = Some (bound user (col_name c))))"
    unfolding key_columns [of "\<lambda>n. \<exists>r \<in> set tbl. dict r n = Some (bound user n)"]
    using assms(2,3) by blast
  show ?thesis unfolding insert_row_def using b c by (simp only: if_False)
qed


lemma insert_row_null:
  assumes "n \<in> set column_names" and "bound user n = PyNone"
  shows "insert_row user tbl = Inl IntegrityError"
proof -
  have "\<exists>c \<in> set users_table. \<not> nullable c \<and> bound user (col_name c) = PyNone"
    unfolding not_null_columns [of "\<lambda>n. bound user n = PyNone"] using assms by blast
  then show ?thesis unfolding insert_row_def by (simp only: if_True)
qed

lemma field_mapping_compiles: "field_mapping user \<Longrightarrow> compile (Insert user) = Inr ()"
  by (simp add: field_mapping_def compile.simps)


lemma all_supplied:
  assumes "dom user \<subseteq> set column_names" and "\<forall>n \<in> set column_names. bound user n \<noteq> PyNone"
  shows "dom user = set column_names"
proof
  show "set column_names \<subseteq> dom user"
  proof
    fix n assume "n \<in> set column_names"
    with assms(2) have "bound user n \<noteq> PyNone" by blast
    then show "n \<in> dom user" by (auto dest: bound_Some)
  qed
qed (rule assms(1))

lemma supplies_not_null_iff:
  "supplies_not_null user = (\<forall>n \<in> set column_names. bound user n \<noteq> PyNone)"
  using not_null_columns [of "\<lambda>n. bound user n = PyNone"]
  by (auto simp: supplies_not_null_def)


subsection \<open>The concrete scenario\<close>

lemma alice_field_mapping: "field_mapping alice"
  by (simp add: field_mapping_def alice_def column_names_eq users_table_def Column_def bound_def)

lemma alice_supplies: "supplies_not_null alice"
  by (simp add: supplies_not_null_def alice_def users_table_def Column_def bound_def)

lemma row_of_alice: "row_of alice = alice_row"
  by (simp add: row_of_def alice_def alice_row_def column_names_eq bound_def)


lemma alice_row_keys:
  "dict alice_row ''accountid'' = Some (PyStr ''1234567890'')"
  "dict alice_row ''username'' = Some (PyStr ''alice'')"
  by (simp_all add: dict_def alice_row_def column_names_eq)


subsection \<open>Further mappings\<close>

lemma taken_iff: "taken tbl col v = (\<exists>r \<in> set tbl. dict r col = v)"
  by (simp add: taken_def)

lemma bob_facts:
  "field_mapping bob" "supplies_not_null bob"
  "bob ''username'' = Some (PyStr ''bob'')" "bob ''accountid'' = Some (PyStr ''2000000000'')"
  by (simp_all add: field_mapping_def supplies_not_null_def bob_def alice_def column_names_eq
      users_table_def Column_def bound_def)

lemma seeded_taken:
  "\<not> taken (users seeded_world) ''accountid'' (Some (PyStr ''2000000000''))"
  "\<not> taken (users seeded_world) ''username'' (Some (PyStr ''bob''))"
  by (simp_all add: taken_def seeded_world_def alice_row_keys)

lemma dict_alice_row: "dict alice_row = alice"
  using dict_row_of_valid [of alice] alice_field_mapping alice_supplies
  by (simp add: row_of_alice all_supplied field_mapping_def supplies_not_null_iff)


lemma carol_facts:
  "field_mapping carol" "supplies_not_null carol"
  "carol ''accountid'' = Some (PyStr ''abc'')" "carol ''username'' = Some (PyStr ''carol'')"
  by (simp_all add: field_mapping_def supplies_not_null_def carol_def alice_def column_names_eq
      users_table_def Column_def bound_def)

lemma insert_carol: "insert_row carol (users seeded_world) = Inr [alice_row, row_of carol]"
proof -
  have "bound carol ''accountid'' = PyStr ''abc''" "bound carol ''username'' = PyStr ''carol''"
    by (simp_all add: bound_def carol_facts)
  then have "insert_row carol (users seeded_world) = Inr (users seeded_world @ [row_of carol])"
    by (intro insert_row_accepts carol_facts(2)) (simp_all add: seeded_world_def alice_row_keys)
  then show ?thesis by (simp add: seeded_world_def)
qed

lemma unknown_key: "compile (Insert nick) = Inl CompileError"
  by (simp add: compile.simps column_names_eq nick_def)

lemma insert_nick: "insert_row nick (users empty_world) = Inr [alice_row]"
proof -
  have "supplies_not_null nick"
    by (simp add: supplies_not_null_def nick_def alice_def users_table_def Column_def
        bound_def)
  then have "insert_row nick (users empty_world) = Inr (users empty_world @ [row_of nick])"
    by (rule insert_row_accepts) (simp_all add: empty_world_def)
  moreover have "row_of nick = alice_row"
    by (simp add: row_of_def nick_def alice_def alice_row_def column_names_eq bound_def)
  ultimately show ?thesis by (simp add: empty_world_def)
qed

lemma anon_facts:
  "field_mapping anon" "insert_row anon (users seeded_world) = Inl IntegrityError"
proof -
  show "field_mapping anon"
    by (simp add: field_mapping_def anon_def alice_def column_names_eq users_table_def
        Column_def bound_def)
  have "''firstname'' \<in> set column_names" by (simp add: column_names_eq)
  moreover have "bound anon ''firstname'' = PyNone" by (simp add: bound_def anon_def)
  ultimately show "insert_row anon (users seeded_world) = Inl IntegrityError"
    by (rule insert_row_null)
qed

lemma add_user_executed:
  assumes "compile (Insert user) = Inr ()" and "connect E w = (Inr conn, w1)"
    and "execute E conn (Insert user) w1 = (res, w2)"
  shows "fst (add_user E user w) = map_sum id (\<lambda>rows. ()) res"
    and "snd (add_user E user w) = w2\<lparr>trace := trace w2 @ Close conn # recorded res\<rparr>"
proof -
  show "fst (add_user E user w) = map_sum id (\<lambda>rows. ()) res"
    using assms by (cases res) (simp_all add: add_user_failed add_user_done)
  show "snd (add_user E user w) = w2\<lparr>trace := trace w2 @ Close conn # recorded res\<rparr>"
  proof (cases res)
    case (Inl err)
    have "recorded (Inl err :: exn + unit) = recorded (Inl err :: exn + row list)"
      by (simp add: recorded_def)
    with assms Inl show ?thesis by (simp add: add_user_failed)
  next
    case (Inr rows)
    with assms show ?thesis by (simp add: add_user_done recorded_def)
  qed
qed

subsection \<open>Failures of the database\<close>

lemma loop_body_retries_iff:
  "(fst (loop_body E conn w) = Inr None) =
     (faults E (clock w) = None \<and> present (users w) (candidate E w 0))"
proof (cases rule: loop_body_cases [of E w])
  case (fault err)
  from loop_body_fault [OF this, of conn] fault show ?thesis by simp
next
  case retry
  from loop_body_retry [OF this, of conn] retry show ?thesis by simp
next
  case accept
  from loop_body_accept [OF this, of conn] accept show ?thesis by simp
qed

lemma generate_connect_fault:
  assumes "faults E (clock w) = Some err"
  shows "map_option fst (generate_accountid E w) = Some (Inl err)"
  by (simp add: generate_not_connected [OF connect_fault [OF assms]])

lemma generate_fault_at:
  assumes ok: "faults E (clock w) = None"
    and retries: "\<forall>j<n. faults E (clock w + Suc j) = None \<and> present (users w) (candidate E w j)"
    and bad: "faults E (clock w + Suc n) = Some err"
  shows "\<exists>w'. generate_accountid E w = Some (Inl err, w')
     \<and> drawn w' = drawn w + Suc n \<and> clock w' = clock w + Suc (Suc n)"
proof -
  note c = connect_ok [OF ok]
  define w1 where "w1 = w\<lparr>clock := Suc (clock w), next_conn := Suc (next_conn w),
        trace := trace w @ [Connect (next_conn w)]\<rparr>"
  have w1: "users w1 = users w" "clock w1 = Suc (clock w)" "drawn w1 = drawn w"
    by (simp_all add: w1_def)
  have cand: "candidate E w1 j = candidate E w j" for j by (simp add: candidate_def w1)
  have "\<forall>j<n. faults E (clock w1 + j) = None \<and> present (users w1) (candidate E w1 j)"
    using retries by (simp add: w1 cand)
  moreover have "faults E (clock w1 + n) = Some err" using bad by (simp add: w1)
  ultimately obtain w2 where
    w2: "while_accountid_is_None E (next_conn w) None w1 = Some (Inl err, w2)"
      "clock w2 = clock w1 + Suc n" "drawn w2 = drawn w1 + Suc n"
    using while_fault_at [of n E w1 err "next_conn w"] by blast
  have "generate_accountid E w =
      Some (Inl err, (close (next_conn w) w2)
        \<lparr>trace := trace (close (next_conn w) w2) @ recorded (Inl err :: exn + string)\<rparr>)"
    by (simp add: generate_connected [OF c, folded w1_def] w2(1) except_recorded)
  then show ?thesis by (intro exI conjI, assumption) (simp_all add: close_def w2 w1)
qed

lemma add_user_propagates:
  assumes "compile (Insert user) = Inr ()"
  shows "fst (connect E w) = Inl err \<Longrightarrow> fst (add_user E user w) = Inl err"
    and "connect E w = (Inr conn, w1) \<Longrightarrow> fst (execute E conn (Insert user) w1) = Inl err \<Longrightarrow>
      fst (add_user E user w) = Inl err"
proof -
  assume "fst (connect E w) = Inl err"
  then obtain w1 where "connect E w = (Inl err, w1)" by (cases "connect E w") simp
  from add_user_not_connected [OF assms this] show "fst (add_user E user w) = Inl err" by simp
next
  assume c: "connect E w = (Inr conn, w1)" and "fst (execute E conn (Insert user) w1) = Inl err"
  then obtain w2 where "execute E conn (Insert user) w1 = (Inl err, w2)"
    by (cases "execute E conn (Insert user) w1") simp
  from add_user_failed [OF assms c this] show "fst (add_user E user w) = Inl err" by simp
qed

lemma get_user_propagates:
  shows "fst (connect E w) = Inl err \<Longrightarrow> fst (get_user E u w) = Inl err"
    and "connect E w = (Inr conn, w1) \<Longrightarrow>
      fst (execute E conn (Select ''username'' (PyStr u)) w1) = Inl err \<Longrightarrow>
      fst (get_user E u w) = Inl err"
proof -
  assume "fst (connect E w) = Inl err"
  then obtain w1 where "connect E w = (Inl err, w1)" by (cases "connect E w") simp
  from get_user_not_connected [OF this] show "fst (get_user E u w) = Inl err" by simp
next
  assume c: "connect E w = (Inr conn, w1)"
    and "fst (execute E conn (Select ''username'' (PyStr u)) w1) = Inl err"
  then obtain w2 where "execute E conn (Select ''username'' (PyStr u)) w1 = (Inl err, w2)"
    by (cases "execute E conn (Select ''username'' (PyStr u)) w1") simp
  from get_user_failed [OF c this] show "fst (get_user E u w) = Inl err" by simp
qed

lemma broken_candidate: "candidate broken_env seeded_world 0 = ''1234567890''"
  by (simp add: candidate_def broken_env_def seeded_world_def str_1234567890)

lemma broken_connect: "fst (connect broken_env alice_added) = Inl OperationalError"
  by (simp add: connect_def broken_env_def alice_added_def)

lemma generate_broken:
  "generate_accountid broken_env alice_added =
     Some (Inl OperationalError,
           alice_added\<lparr>clock := 3,
             trace := trace alice_added @ [RecordException OperationalError]\<rparr>)"
  by (simp add: generate_accountid_def connect_def broken_env_def alice_added_def
      except_recorded recorded_def)

section \<open>The claims\<close>

text \<open>
  C1. For a field mapping that supplies all not-null columns, whose account id and username
  are not yet in the table, \<^verbatim>\<open>add_user\<close> succeeds and \<^verbatim>\<open>get_user\<close> with the mapping's
  username then returns a mapping equal to the one inserted (no database failure during
  the two calls).
\<close>

theorem C1_add_user_then_get_user:
  assumes "field_mapping user" and "supplies_not_null user"
    and "user ''username'' = Some (PyStr u)"
    and "\<not> taken (users w) ''accountid'' (user ''accountid'')"
    and "\<not> taken (users w) ''username'' (user ''username'')"
    and "\<forall>k<4. faults E (clock w + k) = None"
  shows "fst (add_user E user w) = Inr ()
     \<and> fst (get_user E u (snd (add_user E user w))) = Inr (Some user)"
proof -
  have f: "faults E (clock w) = None" "faults E (Suc (clock w)) = None"
    "faults E (Suc (Suc (clock w))) = None" "faults E (Suc (Suc (Suc (clock w)))) = None"
    using assms(6) [rule_format, of 0] assms(6) [rule_format, of 1]
      assms(6) [rule_format, of 2] assms(6) [rule_format, of 3]
    by (simp_all add: numeral_3_eq_3)
  have nn: "\<forall>n \<in> set column_names. bound user n \<noteq> PyNone"
    using assms(2) by (simp add: supplies_not_null_iff)
  have k: "user ''accountid'' = Some (bound user ''accountid'')"
    "user ''username'' = Some (bound user ''username'')"
    using nn by (simp_all add: column_names_eq bound_Some)
  have ins: "insert_row user (users w) = Inr (users w @ [row_of user])"
    using assms(4,5) by (intro insert_row_accepts assms(2)) (simp_all add: taken_iff k)
  note comp = field_mapping_compiles [OF assms(1)]
  note add = add_user_accepted [OF comp f(1,2) ins]
  have d: "dict (row_of user) = user"
    using assms(1) nn by (intro dict_row_of_valid all_supplied) (simp_all add: field_mapping_def)
  have "\<forall>r \<in> set (users w). \<not> username_is u r"
    using assms(3,5) by (simp add: taken_iff username_is_def)
  moreover have "username_is u (row_of user)" by (simp add: username_is_def d assms(3))
  ultimately have "first (filter (username_is u) (users w @ [row_of user])) = Some (row_of user)"
    by (rule first_filter_first)
  then show ?thesis by (simp add: add get_user_ok f d)
qed

theorem C1_witness:
  "field_mapping bob \<and> supplies_not_null bob \<and> bob ''username'' = Some (PyStr ''bob'')
   \<and> \<not> taken (users seeded_world) ''accountid'' (bob ''accountid'')
   \<and> \<not> taken (users seeded_world) ''username'' (bob ''username'')
   \<and> fst (add_user mocked_env bob seeded_world) = Inr ()
   \<and> fst (get_user mocked_env ''bob'' (snd (add_user mocked_env bob seeded_world))) =
       Inr (Some bob)"
  using C1_add_user_then_get_user [of bob "''bob''" seeded_world mocked_env]
    bob_facts seeded_taken
  by (simp add: mocked_env_def)

text \<open>
  C2. Every value that \<^verbatim>\<open>generate_accountid\<close> returns normally is a string of exactly ten
  ASCII digits whose numeric value lies between 1000000000 and 9999999999. The only
  assumption is the contract of \<^verbatim>\<open>random.randint\<close> for arbitrary bounds; the interval
  comes from the bounds the method passes to it.
\<close>

theorem C2_accountid_ten_digits:
  assumes "randint_contract E"
    and "map_option fst (generate_accountid E w) = Some (Inr a)"
  shows "length a = 10 \<and> list_all is_ascii_digit a
     \<and> 1000000000 \<le> decimal_value a \<and> decimal_value a \<le> 9999999999"
proof -
  from generate_result_drawn [OF assms(2)] obtain i where
    "a = str_int (rnd E i 1000000000 (10000000000 - 1))" by blast
  then obtain n where a: "a = str_int n" and n: "n = rnd E i 1000000000 (10000000000 - 1)"
    by blast
  have "(1000000000 :: int) \<le> 10000000000 - 1" by simp
  with assms(1) have r: "1000000000 \<le> n" "n \<le> 10000000000 - 1"
    unfolding randint_contract_def n by blast+
  from r have "1000000000 \<le> nat n" "nat n \<le> 9999999999" by linarith+
  with str_int_in_range [OF r] show ?thesis unfolding a by (simp add: list_all_iff)
qed

theorem C2_witness:
  "randint_contract mocked_env
   \<and> map_option fst (generate_accountid mocked_env seeded_world) = Some (Inr ''2000000000'')
   \<and> length ''2000000000'' = 10 \<and> list_all is_ascii_digit ''2000000000''
   \<and> 1000000000 \<le> decimal_value ''2000000000'' \<and> decimal_value ''2000000000'' \<le> 9999999999"
proof -
  have run: "map_option fst (generate_accountid mocked_env seeded_world) = Some (Inr ''2000000000'')"
    using generate_first_absent [of "Suc 0" mocked_env seeded_world]
    by (simp add: mocked_candidates seeded_present) (simp add: mocked_env_def)
  from C2_accountid_ten_digits [OF mocked_contract run] mocked_contract run show ?thesis by simp
qed

text \<open>
  C3. When \<^verbatim>\<open>generate_accountid\<close> returns an account id, that id is absent from the table,
  the table is unchanged, and the last statement of the call is the existence check for
  that id, on the call's connection, with no row found. In particular, if the table holds
  a row with account id \<open>X\<close> and the random source first produces \<open>X\<close> and then a fresh
  \<open>Y\<close>, the call returns \<open>Y\<close>, not \<open>X\<close>.
\<close>

theorem C3_returned_id_observed_absent:
  "(generate_accountid E w = Some (Inr a, w') \<longrightarrow>
      \<not> present (users w) a \<and> users w' = users w \<and>
      (\<exists>evs. trace w' =
         trace w @ Connect (next_conn w) # evs @
           [Executed (next_conn w) (Select ''accountid'' (PyStr a)) (Inr []),
            Close (next_conn w)]))
   \<and>
   (faults E (clock w) = None \<and> faults E (clock w + 1) = None \<and>
    faults E (clock w + 2) = None \<and>
    rnd E (drawn w) 1000000000 (10000000000 - 1) = X \<and>
    rnd E (drawn w + 1) 1000000000 (10000000000 - 1) = Y \<and>
    present (users w) (str_int X) \<and> \<not> present (users w) (str_int Y)
      \<longrightarrow> map_option fst (generate_accountid E w) = Some (Inr (str_int Y))
          \<and> str_int Y \<noteq> str_int X)"
proof (intro conjI impI)
  assume run: "generate_accountid E w = Some (Inr a, w')"
  have "\<exists>c. fst (connect E w) = Inr c"
  proof (cases "fst (connect E w)")
    case (Inl err)
    from generate_trace_not_connected [OF run Inl] show ?thesis by simp
  qed simp
  then obtain c where c: "fst (connect E w) = Inr c" by blast
  from generate_trace [OF run c] obtain evs evs' where
    f: "c = next_conn w" "users w' = users w" "\<not> present (users w) a"
      "trace w' = trace w @ Connect c # evs @ Close c # recorded (Inr a :: exn + string)"
      "evs = evs' @ [Executed c (Select ''accountid'' (PyStr a)) (Inr [])]"
    by blast
  show "\<not> present (users w) a" by (rule f(3))
  show "users w' = users w" by (rule f(2))
  from f(4) have "trace w' =
         trace w @ Connect (next_conn w) # evs' @
           [Executed (next_conn w) (Select ''accountid'' (PyStr a)) (Inr []),
            Close (next_conn w)]"
    by (simp add: f(1) f(5) recorded_def)
  then show "\<exists>evs. trace w' =
         trace w @ Connect (next_conn w) # evs @
           [Executed (next_conn w) (Select ''accountid'' (PyStr a)) (Inr []),
            Close (next_conn w)]" by blast
next
  assume a: "faults E (clock w) = None \<and> faults E (clock w + 1) = None \<and>
    faults E (clock w + 2) = None \<and>
    rnd E (drawn w) 1000000000 (10000000000 - 1) = X \<and>
    rnd E (drawn w + 1) 1000000000 (10000000000 - 1) = Y \<and>
    present (users w) (str_int X) \<and> \<not> present (users w) (str_int Y)"
  have c: "candidate E w 0 = str_int X" "candidate E w (Suc 0) = str_int Y"
    using a by (simp_all add: candidate_def)
  have "\<forall>k\<le>Suc (Suc 0). faults E (clock w + k) = None"
  proof (intro allI impI)
    fix k :: nat assume "k \<le> Suc (Suc 0)"
    then consider "k = 0" | "k = 1" | "k = 2" by atomize_elim presburger
    then show "faults E (clock w + k) = None" using a by cases simp_all
  qed
  moreover have "\<forall>j<Suc 0. present (users w) (candidate E w j)" using a c by simp
  moreover have "\<not> present (users w) (candidate E w (Suc 0))" using a c by simp
  ultimately have "map_option fst (generate_accountid E w) = Some (Inr (candidate E w (Suc 0)))"
    by (rule generate_first_absent)
  then show "map_option fst (generate_accountid E w) = Some (Inr (str_int Y))" by (simp add: c)
  show "str_int Y \<noteq> str_int X" using a by auto
qed

theorem C3_witness:
  "generate_accountid mocked_env seeded_world = Some (Inr ''2000000000'', mocked_final)
   \<and> \<not> present (users seeded_world) ''2000000000''
   \<and> present (users seeded_world) ''1234567890''
   \<and> users mocked_final = users seeded_world
   \<and> (\<exists>evs. trace mocked_final =
         trace seeded_world @ Connect (next_conn seeded_world) # evs @
           [Executed (next_conn seeded_world) (Select ''accountid'' (PyStr ''2000000000''))
              (Inr []),
            Close (next_conn seeded_world)])
   \<and> faults mocked_env (clock seeded_world) = None
   \<and> faults mocked_env (clock seeded_world + 1) = None
   \<and> faults mocked_env (clock seeded_world + 2) = None
   \<and> rnd mocked_env (drawn seeded_world) 1000000000 (10000000000 - 1) = 1234567890
   \<and> rnd mocked_env (drawn seeded_world + 1) 1000000000 (10000000000 - 1) = 2000000000
   \<and> map_option fst (generate_accountid mocked_env seeded_world) = Some (Inr ''2000000000'')
   \<and> ''2000000000'' \<noteq> ''1234567890''"
  using C3_returned_id_observed_absent
    [of mocked_env seeded_world "''2000000000''" mocked_final 1234567890 2000000000]
    generate_mocked seeded_present
  by (simp add: str_1234567890 str_2000000000 mocked_env_def seeded_world_def)

text \<open>
  C4. When no row has the username, \<^verbatim>\<open>get_user\<close> returns \<^verbatim>\<open>None\<close> as its value, not an
  error; when rows match, it returns the first of them as a mapping from column names to
  values (no database failure during the call).
\<close>

theorem C4_get_user_absent_or_first:
  assumes "faults E (clock w) = None" and "faults E (Suc (clock w)) = None"
  shows "(\<not> taken (users w) ''username'' (Some (PyStr u))
            \<longrightarrow> fst (get_user E u w) = Inr None)
     \<and> (users w = pre @ r # post \<and> \<not> taken pre ''username'' (Some (PyStr u))
          \<and> dict r ''username'' = Some (PyStr u)
            \<longrightarrow> fst (get_user E u w) = Inr (Some (dict r)))"
proof (intro conjI impI)
  assume "\<not> taken (users w) ''username'' (Some (PyStr u))"
  then have "first (filter (username_is u) (users w)) = None"
    by (simp add: first_filter_None taken_iff username_is_def)
  then show "fst (get_user E u w) = Inr None" by (simp add: get_user_ok assms)
next
  assume a: "users w = pre @ r # post \<and> \<not> taken pre ''username'' (Some (PyStr u))
          \<and> dict r ''username'' = Some (PyStr u)"
  then have "\<forall>x \<in> set pre. \<not> username_is u x" "username_is u r"
    by (simp_all add: taken_iff username_is_def)
  then have "first (filter (username_is u) (pre @ r # post)) = Some r"
    by (rule first_filter_first)
  with a show "fst (get_user E u w) = Inr (Some (dict r))" by (simp add: get_user_ok assms)
qed

theorem C4_witness:
  "faults mocked_env (clock seeded_world) = None
   \<and> faults mocked_env (Suc (clock seeded_world)) = None
   \<and> \<not> taken (users seeded_world) ''username'' (Some (PyStr ''bob''))
   \<and> fst (get_user mocked_env ''bob'' seeded_world) = Inr None
   \<and> users seeded_world = [] @ alice_row # []
   \<and> dict alice_row ''username'' = Some (PyStr ''alice'')
   \<and> fst (get_user mocked_env ''alice'' seeded_world) = Inr (Some alice)"
proof -
  have f: "faults mocked_env (clock seeded_world) = None"
    "faults mocked_env (Suc (clock seeded_world)) = None"
    by (simp_all add: mocked_env_def)
  have u: "users seeded_world = [] @ alice_row # []" by (simp add: seeded_world_def)
  have e: "\<not> taken [] ''username'' (Some (PyStr ''alice''))" by (simp add: taken_def)
  from C4_get_user_absent_or_first [OF f, of "''bob''" "[]" alice_row "[]"]
    C4_get_user_absent_or_first [OF f, of "''alice''" "[]" alice_row "[]"]
    f u e seeded_taken(2) alice_row_keys(2)
  show ?thesis by (simp add: dict_alice_row)
qed

text \<open>
  C5. A pass through the loop of \<^verbatim>\<open>generate_accountid\<close> asks for another pass exactly
  when its existence check succeeded and found the candidate present. A failure of
  \<^verbatim>\<open>connect\<close>, or of the existence check after any number \<open>n\<close> of rejected candidates,
  ends the call with that same error, and nothing more is drawn or executed after the
  failing check. \<^verbatim>\<open>add_user\<close> and \<^verbatim>\<open>get_user\<close> return the error of a failing
  \<^verbatim>\<open>connect\<close> or \<^verbatim>\<open>execute\<close> unchanged.
\<close>

theorem C5_errors_propagate_unchanged:
  "((fst (loop_body E conn w) = Inr None) =
      (faults E (clock w) = None \<and> present (users w) (candidate E w 0)))
   \<and> (faults E (clock w) = Some err \<longrightarrow>
        map_option fst (generate_accountid E w) = Some (Inl err))
   \<and> (faults E (clock w) = None \<and>
       (\<forall>j<n. faults E (clock w + Suc j) = None \<and> present (users w) (candidate E w j)) \<and>
       faults E (clock w + Suc n) = Some err \<longrightarrow>
        (\<exists>w'. generate_accountid E w = Some (Inl err, w')
           \<and> drawn w' = drawn w + Suc n \<and> clock w' = clock w + Suc (Suc n)))
   \<and> (compile (Insert user) = Inr () \<and> fst (connect E w) = Inl err \<longrightarrow>
        fst (add_user E user w) = Inl err)
   \<and> (compile (Insert user) = Inr () \<and> connect E w = (Inr conn, w1) \<and>
       fst (execute E conn (Insert user) w1) = Inl err \<longrightarrow>
        fst (add_user E user w) = Inl err)
   \<and> (fst (connect E w) = Inl err \<longrightarrow> fst (get_user E u w) = Inl err)
   \<and> (connect E w = (Inr conn, w1) \<and>
       fst (execute E conn (Select ''username'' (PyStr u)) w1) = Inl err \<longrightarrow>
        fst (get_user E u w) = Inl err)"
  using loop_body_retries_iff [of E conn w] generate_connect_fault [of E w err]
    generate_fault_at [of E w n err]
    add_user_propagates [where user = user and E = E and w = w and err = err]
    get_user_propagates [where E = E and w = w and err = err and u = u]
  by blast

theorem C5_witness:
  "fst (loop_body broken_env 0 seeded_world) = Inr None
   \<and> faults broken_env (clock seeded_world + Suc 1) = Some OperationalError
   \<and> (\<exists>w'. generate_accountid broken_env seeded_world = Some (Inl OperationalError, w')
         \<and> drawn w' = drawn seeded_world + Suc 1 \<and> clock w' = clock seeded_world + Suc (Suc 1))
   \<and> compile (Insert bob) = Inr ()
   \<and> fst (connect broken_env alice_added) = Inl OperationalError
   \<and> fst (add_user broken_env bob alice_added) = Inl OperationalError
   \<and> fst (get_user broken_env ''alice'' alice_added) = Inl OperationalError"
proof -
  have p: "present (users seeded_world) (candidate broken_env seeded_world 0)"
    by (simp add: broken_candidate seeded_present)
  have f: "faults broken_env (clock seeded_world) = None"
    "faults broken_env (clock seeded_world + Suc 0) = None"
    "faults broken_env (clock seeded_world + Suc 1) = Some OperationalError"
    by (simp_all add: broken_env_def seeded_world_def)
  have h: "faults broken_env (clock seeded_world) = None"
    "\<forall>j<1. faults broken_env (clock seeded_world + Suc j) = None
        \<and> present (users seeded_world) (candidate broken_env seeded_world j)"
    "faults broken_env (clock seeded_world + Suc 1) = Some OperationalError"
    using f p by simp_all
  from C5_errors_propagate_unchanged [where E = broken_env and w = seeded_world and conn = 0
      and n = 1 and err = OperationalError and user = bob and u = "''alice''"] h p
  have a: "fst (loop_body broken_env 0 seeded_world) = Inr None"
    "\<exists>w'. generate_accountid broken_env seeded_world = Some (Inl OperationalError, w')
         \<and> drawn w' = drawn seeded_world + Suc 1 \<and> clock w' = clock seeded_world + Suc (Suc 1)"
    by blast+
  note c = field_mapping_compiles [OF bob_facts(1)]
  from C5_errors_propagate_unchanged [where E = broken_env and w = alice_added
      and err = OperationalError and user = bob and u = "''alice''"] c broken_connect
  have b: "fst (add_user broken_env bob alice_added) = Inl OperationalError"
    "fst (get_user broken_env ''alice'' alice_added) = Inl OperationalError"
    by blast+
  from a b c broken_connect h(3) show ?thesis by simp
qed



text \<open>
  C7. The retry loop of \<^verbatim>\<open>generate_accountid\<close> has no iteration cap. Over a stream of
  candidates and with no database failure, the call returns the first candidate that is
  absent from the table, however many candidates \<open>n\<close> were rejected before it; and when every
  candidate of the stream is present, the call never returns.
\<close>

theorem C7_unbounded_retry:
  "((\<forall>k\<le>Suc n. faults E (clock w + k) = None) \<and>
    (\<forall>j<n. present (users w) (candidate E w j)) \<and>
    \<not> present (users w) (candidate E w n)
      \<longrightarrow> map_option fst (generate_accountid E w) = Some (Inr (candidate E w n)))
   \<and>
   ((\<forall>k. faults E (clock w + k) = None) \<and> (\<forall>j. present (users w) (candidate E w j))
      \<longrightarrow> generate_accountid E w = None)"
  using generate_first_absent [of n E w] generate_diverges [of E w] by blast

theorem C7_witness:
  "map_option fst (generate_accountid mocked_env seeded_world) = Some (Inr ''2000000000'')
   \<and> generate_accountid stuck_env seeded_world = None"
  using C7_unbounded_retry [of "Suc 0" mocked_env seeded_world]
    C7_unbounded_retry [of 0 stuck_env seeded_world]
  by (simp add: mocked_candidates stuck_candidates seeded_present)
    (simp add: mocked_env_def stuck_env_def)

text \<open>
  C8. A call of \<^verbatim>\<open>generate_accountid\<close> checks out one connection \<open>c\<close>; between
  \<open>Connect c\<close> and \<open>Close c\<close> the trace holds only existence checks executed on \<open>c\<close>
  (and retry events), and nothing is executed after \<open>Close c\<close>. When no connection can be
  made, no statement is executed at all. Every single pass through the loop, from any
  state, executes its check on the connection the loop was entered with.
\<close>

theorem C8_one_connection_checkout:
  "(generate_accountid E w = Some (r, w') \<and> fst (connect E w) = Inr c \<longrightarrow>
      (\<exists>evs. trace w' = trace w @ Connect c # evs @ Close c # recorded r
          \<and> list_all (on_connection c) evs))
   \<and>
   (generate_accountid E w = Some (r, w') \<and> fst (connect E w) = Inl err \<longrightarrow>
      trace w' = trace w @ recorded r)
   \<and>
   (loop_body E c w = (r', w1) \<longrightarrow>
      (\<exists>evs. trace w1 = trace w @ evs \<and> list_all (on_connection c) evs))"
  using generate_trace [of E w r w' c] generate_trace_not_connected [of E w r w' err]
    loop_body_on_connection [of E c w r' w1]
  by blast

theorem C8_witness:
  "generate_accountid mocked_env seeded_world = Some (Inr ''2000000000'', mocked_final)
   \<and> fst (connect mocked_env seeded_world) = Inr 0
   \<and> (\<exists>evs. trace mocked_final =
         trace seeded_world @ Connect 0 # evs @ Close 0 # recorded (Inr ''2000000000'' :: exn + string)
       \<and> list_all (on_connection 0) evs)
   \<and> (\<exists>evs. trace (seeded_world\<lparr>clock := 1, drawn := 1,
        trace := [Executed 0 (Select ''accountid'' (PyStr ''1234567890'')) (Inr [alice_row]),
                  AddEvent ''Account ID exists, retrying'' [(''accountid'', PyNone)]]\<rparr>)
         = trace seeded_world @ evs \<and> list_all (on_connection 0) evs)
   \<and> fst (connect broken_env alice_added) = Inl OperationalError
   \<and> trace (alice_added\<lparr>clock := 3,
         trace := trace alice_added @ [RecordException OperationalError]\<rparr>) =
       trace alice_added @ recorded (Inl OperationalError :: exn + string)"
proof -
  note one = C8_one_connection_checkout [where E = mocked_env and w = seeded_world
      and r = "Inr ''2000000000''" and w' = mocked_final and c = 0 and r' = "Inr None"
      and ?w1.0 = "seeded_world\<lparr>clock := 1, drawn := 1,
        trace := [Executed 0 (Select ''accountid'' (PyStr ''1234567890'')) (Inr [alice_row]),
                  AddEvent ''Account ID exists, retrying'' [(''accountid'', PyNone)]]\<rparr>"]
  note two = C8_one_connection_checkout [where E = broken_env and w = alice_added
      and r = "Inl OperationalError" and err = OperationalError
      and w' = "alice_added\<lparr>clock := 3,
         trace := trace alice_added @ [RecordException OperationalError]\<rparr>"]
  from one generate_mocked connect_mocked loop_body_mocked
  have a: "\<exists>evs. trace mocked_final =
         trace seeded_world @ Connect 0 # evs @ Close 0 # recorded (Inr ''2000000000'' :: exn + string)
       \<and> list_all (on_connection 0) evs"
    "\<exists>evs. trace (seeded_world\<lparr>clock := 1, drawn := 1,
        trace := [Executed 0 (Select ''accountid'' (PyStr ''1234567890'')) (Inr [alice_row]),
                  AddEvent ''Account ID exists, retrying'' [(''accountid'', PyNone)]]\<rparr>)
         = trace seeded_world @ evs \<and> list_all (on_connection 0) evs"
    by blast+
  from two generate_broken broken_connect
  have b: "trace (alice_added\<lparr>clock := 3,
         trace := trace alice_added @ [RecordException OperationalError]\<rparr>) =
       trace alice_added @ recorded (Inl OperationalError :: exn + string)"
    by blast
  from a b generate_mocked connect_mocked broken_connect show ?thesis by blast
qed

text \<open>
  C9. The retry event is meant to carry the rejected candidate. On the seeded table with
  the mocked random source the first candidate, 1234567890, is rejected, and the event
  that \<^verbatim>\<open>generate_accountid\<close> emits for it carries \<^verbatim>\<open>None\<close> under \<^verbatim>\<open>accountid\<close>: the
  variable is cleared on the line before \<^verbatim>\<open>add_event\<close> reads it.
\<close>

theorem C9_retry_event_carries_None:
  "map_option (trace \<circ> snd) (generate_accountid mocked_env seeded_world) =
     Some [Connect 0,
           Executed 0 (Select ''accountid'' (PyStr ''1234567890'')) (Inr [alice_row]),
           AddEvent ''Account ID exists, retrying'' [(''accountid'', PyNone)],
           Executed 0 (Select ''accountid'' (PyStr ''2000000000'')) (Inr []),
           Close 0]"
  by (simp add: generate_mocked mocked_final_def)

text \<open>
  C10 (as amended). \<^verbatim>\<open>add_user\<close> validates nothing itself and puts the mapping unchanged
  into the INSERT. A mapping with a key that is not a column is refused by the statement
  compiler when \<^verbatim>\<open>add_user\<close> renders the statement for its debug log, before any
  connection is made. For every other mapping the INSERT of the unchanged mapping is
  executed, and the call fails exactly when connecting or executing fails, with that
  error; for values of the columns' types (also with not-null columns missing, or an
  account id that is not a ten-digit number) it fails or succeeds, and changes the table,
  exactly as the constraints of the table decide.
\<close>

theorem C10_add_user_no_validation:
  "(compile (Insert user) = Inl err \<longrightarrow> add_user E user w = (Inl err, w))
   \<and>
   (compile (Insert user) = Inr () \<and> fst (connect E w) = Inl err \<longrightarrow>
      fst (add_user E user w) = Inl err)
   \<and>
   (compile (Insert user) = Inr () \<and> connect E w = (Inr conn, w1) \<and>
    execute E conn (Insert user) w1 = (res, w2) \<longrightarrow>
      fst (add_user E user w) = map_sum id (\<lambda>rows. ()) res
      \<and> snd (add_user E user w) = w2\<lparr>trace := trace w2 @ Close conn # recorded res\<rparr>)
   \<and>
   (field_mapping user \<and> faults E (clock w) = None \<and> faults E (Suc (clock w)) = None \<longrightarrow>
      fst (add_user E user w) =
        (case insert_row user (users w) of Inl err' \<Rightarrow> Inl err' | Inr tbl \<Rightarrow> Inr ())
      \<and> users (snd (add_user E user w)) =
        (case insert_row user (users w) of Inl err' \<Rightarrow> users w | Inr tbl \<Rightarrow> tbl))"
proof (intro conjI impI)
  assume "compile (Insert user) = Inl err"
  then show "add_user E user w = (Inl err, w)" by (rule add_user_not_compiled)
next
  assume "compile (Insert user) = Inr () \<and> fst (connect E w) = Inl err"
  then show "fst (add_user E user w) = Inl err" by (simp add: add_user_propagates(1))
next
  assume a: "compile (Insert user) = Inr () \<and> connect E w = (Inr conn, w1) \<and>
    execute E conn (Insert user) w1 = (res, w2)"
  then show "fst (add_user E user w) = map_sum id (\<lambda>rows. ()) res"
    by (simp add: add_user_executed(1))
  from a show "snd (add_user E user w) = w2\<lparr>trace := trace w2 @ Close conn # recorded res\<rparr>"
    by (simp add: add_user_executed(2))
next
  assume a: "field_mapping user \<and> faults E (clock w) = None \<and> faults E (Suc (clock w)) = None"
  then have c: "compile (Insert user) = Inr ()" and f: "faults E (clock w) = None"
    "faults E (Suc (clock w)) = None" by (simp_all add: field_mapping_compiles)
  show "fst (add_user E user w) =
        (case insert_row user (users w) of Inl err' \<Rightarrow> Inl err' | Inr tbl \<Rightarrow> Inr ())"
    by (cases "insert_row user (users w)")
      (simp_all add: add_user_rejected [OF c f] add_user_accepted [OF c f])
  show "users (snd (add_user E user w)) =
        (case insert_row user (users w) of Inl err' \<Rightarrow> users w | Inr tbl \<Rightarrow> tbl)"
    by (cases "insert_row user (users w)")
      (simp_all add: add_user_rejected [OF c f] add_user_accepted [OF c f])
qed

theorem C10_witness:
  "compile (Insert nick) = Inl CompileError
   \<and> add_user mocked_env nick seeded_world = (Inl CompileError, seeded_world)
   \<and> compile (Insert bob) = Inr ()
   \<and> fst (connect broken_env alice_added) = Inl OperationalError
   \<and> fst (add_user broken_env bob alice_added) = Inl OperationalError
   \<and> field_mapping carol
   \<and> faults mocked_env (clock seeded_world) = None
   \<and> faults mocked_env (Suc (clock seeded_world)) = None
   \<and> fst (add_user mocked_env carol seeded_world) = Inr ()
   \<and> users (snd (add_user mocked_env carol seeded_world)) = [alice_row, row_of carol]
   \<and> field_mapping anon
   \<and> fst (add_user mocked_env anon seeded_world) = Inl IntegrityError
   \<and> users (snd (add_user mocked_env anon seeded_world)) = users seeded_world
   \<and> compile (Insert carol) = Inr ()
   \<and> connect mocked_env seeded_world = (Inr 0, snd (connect mocked_env seeded_world))
   \<and> fst (add_user mocked_env carol seeded_world) =
       map_sum id (\<lambda>rows. ())
         (fst (execute mocked_env 0 (Insert carol) (snd (connect mocked_env seeded_world))))"
proof -
  have f: "faults mocked_env (clock seeded_world) = None"
    "faults mocked_env (Suc (clock seeded_world)) = None"
    by (simp_all add: mocked_env_def)
  note cb = field_mapping_compiles [OF bob_facts(1)]
  from C10_add_user_no_validation [where user = nick and err = CompileError
      and E = mocked_env and w = seeded_world] unknown_key
  have one: "add_user mocked_env nick seeded_world = (Inl CompileError, seeded_world)"
    by blast
  from C10_add_user_no_validation [where user = bob and err = OperationalError
      and E = broken_env and w = alice_added] cb broken_connect
  have two: "fst (add_user broken_env bob alice_added) = Inl OperationalError"
    by blast
  from C10_add_user_no_validation [where user = carol and E = mocked_env and w = seeded_world]
    carol_facts(1) f
  have three: "fst (add_user mocked_env carol seeded_world) = Inr ()"
    "users (snd (add_user mocked_env carol seeded_world)) = [alice_row, row_of carol]"
    by (simp_all add: insert_carol)
  from C10_add_user_no_validation [where user = anon and E = mocked_env and w = seeded_world]
    anon_facts f
  have four: "fst (add_user mocked_env anon seeded_world) = Inl IntegrityError"
    "users (snd (add_user mocked_env anon seeded_world)) = users seeded_world"
    by simp_all
  note cc = field_mapping_compiles [OF carol_facts(1)]
  have conn: "connect mocked_env seeded_world = (Inr 0, snd (connect mocked_env seeded_world))"
    using connect_mocked by (cases "connect mocked_env seeded_world") simp
  from C10_add_user_no_validation [where user = carol and E = mocked_env and w = seeded_world
      and conn = 0 and ?w1.0 = "snd (connect mocked_env seeded_world)"
      and res = "fst (execute mocked_env 0 (Insert carol) (snd (connect mocked_env seeded_world)))"
      and ?w2.0 = "snd (execute mocked_env 0 (Insert carol) (snd (connect mocked_env seeded_world)))"]
    cc conn
  have five: "fst (add_user mocked_env carol seeded_world) =
       map_sum id (\<lambda>rows. ())
         (fst (execute mocked_env 0 (Insert carol) (snd (connect mocked_env seeded_world))))"
    by simp
  from one two three four five unknown_key cb cc conn broken_connect carol_facts(1)
    anon_facts(1) f
  show ?thesis by simp
qed

text \<open>
  C10 as first stated has every rejection come from the constraints of the database. The
  mapping of \<open>alice\<close> with the extra key \<^verbatim>\<open>nickname\<close> is refused on the empty table, where
  the constraints accept it, and the world is left as it was: no connection was made and no
  statement reached the database.
\<close>

theorem C10_counterexample:
  "add_user mocked_env nick empty_world = (Inl CompileError, empty_world)
   \<and> insert_row nick (users empty_world) = Inr [alice_row]"
  by (simp add: add_user_not_compiled [OF unknown_key] insert_nick)

end
